theory Spec2Isabelle
  imports Main "HOL-Library.AList"
begin

section \<open>Python values shared by the adapters and the orchestrators\<close>

text \<open>
  Strings are byte lists holding the UTF-8 encoding of the Python \<open>str\<close>.  An exception is a
  value: its class (only the classes the code distinguishes or raises itself) and the text
  \<open>str(e)\<close> gives.  Every \<open>except Exception\<close> of the source catches all of them; the
  \<open>except json.JSONDecodeError\<close> clauses of the argument parser catch the first class only.
\<close>

datatype exn_class = JSONDecodeError | AttributeError | UnboundLocalError | IndexError | OtherError

datatype pyexn = PyExn exn_class string

fun exn_cls :: "pyexn \<Rightarrow> exn_class" where
  "exn_cls (PyExn c m) = c"

fun str_exn :: "pyexn \<Rightarrow> string" where
  "str_exn (PyExn c m) = m"

text \<open>
  What \<open>json.loads\<close> returns: \<open>JNull\<close> is Python's \<open>None\<close>, \<open>JObj []\<close> is the empty
  dict \<open>{}\<close>.  A dict keeps its keys in insertion order.
\<close>

datatype json =
    JNull
  | JBool bool
  | JInt int
  | JStr string
  | JArr "json list"
  | JObj "(string \<times> json) list"

subsection \<open>\<open>str.strip()\<close>\<close>

text \<open>
  \<open>str.strip()\<close> removes the code points for which \<open>str.isspace\<close> holds: U+0009..U+000D,
  U+001C..U+0020, U+0085, U+00A0, U+1680, U+2000..U+200A, U+2028, U+2029, U+202F, U+205F and
  U+3000, here in their UTF-8 encoding.  The parser only asks whether the stripped string is
  empty, which is the case exactly when stripping from the left leaves nothing.
\<close>

definition ascii_space :: "char \<Rightarrow> bool" where
  "ascii_space c = (c \<in> set [CHR 0x09, CHR 0x0A, CHR 0x0B, CHR 0x0C, CHR 0x0D,
                              CHR 0x1C, CHR 0x1D, CHR 0x1E, CHR 0x1F, CHR 0x20])"

definition space2 :: "char \<Rightarrow> char \<Rightarrow> bool" where
  "space2 a b = (a = CHR 0xC2 \<and> (b = CHR 0x85 \<or> b = CHR 0xA0))"

definition space3 :: "char \<Rightarrow> char \<Rightarrow> char \<Rightarrow> bool" where
  "space3 a b c =
     ((a = CHR 0xE1 \<and> b = CHR 0x9A \<and> c = CHR 0x80)
    \<or> (a = CHR 0xE2 \<and> b = CHR 0x80 \<and>
         c \<in> set [CHR 0x80, CHR 0x81, CHR 0x82, CHR 0x83, CHR 0x84, CHR 0x85, CHR 0x86,
                   CHR 0x87, CHR 0x88, CHR 0x89, CHR 0x8A, CHR 0xA8, CHR 0xA9, CHR 0xAF])
    \<or> (a = CHR 0xE2 \<and> b = CHR 0x81 \<and> c = CHR 0x9F)
    \<or> (a = CHR 0xE3 \<and> b = CHR 0x80 \<and> c = CHR 0x80))"

fun lstrip :: "string \<Rightarrow> string" where
  "lstrip [] = []"
| "lstrip [a] = (if ascii_space a then [] else [a])"
| "lstrip [a, b] =
     (if ascii_space a then lstrip [b] else if space2 a b then [] else [a, b])"
| "lstrip (a # b # c # r) =
     (if ascii_space a then lstrip (b # c # r)
      else if space2 a b then lstrip (c # r)
      else if space3 a b c then lstrip r
      else a # b # c # r)"

text \<open>The test \<open>not arguments_str or not arguments_str.strip()\<close>.\<close>

definition blank :: "string \<Rightarrow> bool" where
  "blank s = (s = [] \<or> lstrip s = [])"

subsection \<open>The argument parser (\<open>model_base._try_parse_tool_arguments\<close>)\<close>

text \<open>\<open>arguments_str.replace("'", '"')\<close>.\<close>

definition replace_quotes :: "string \<Rightarrow> string" where
  "replace_quotes s = map (\<lambda>c. if c = CHR 0x27 then CHR 0x22 else c) s"

text \<open>
  \<open>json.loads\<close> belongs to the standard library, not to this repository: it is the parameter
  \<open>loads\<close>, which returns a value or raises.  The result \<open>Inr JNull\<close> is the \<open>return None\<close>
  of the source (and also what a successful parse of the text \<open>null\<close> returns); \<open>Inl e\<close> is an
  exception that leaves the function.
\<close>

definition try_parse_tool_arguments :: "(string \<Rightarrow> pyexn + json) \<Rightarrow> string \<Rightarrow> pyexn + json" where
  "try_parse_tool_arguments loads arguments_str =
     (if blank arguments_str then Inr (JObj [])
      else case loads arguments_str of
             Inr v \<Rightarrow> Inr v
           | Inl e \<Rightarrow>
               if exn_cls e = JSONDecodeError then
                 (case loads (replace_quotes arguments_str) of
                    Inr v \<Rightarrow> Inr v
                  | Inl e' \<Rightarrow> if exn_cls e' = JSONDecodeError then Inr JNull else Inl e')
               else Inl e)"

subsection \<open>A strict decoder for a fragment of JSON\<close>

text \<open>
  For concrete runs \<open>json.loads\<close> is instantiated by \<open>strict_loads\<close>, a strict decoder for the
  JSON texts built from objects, arrays, strings without escape sequences, integers and the
  three literals, with the whitespace and the number grammar of \<open>json.loads\<close>.  Whatever is
  outside this fragment is refused with a \<open>JSONDecodeError\<close>.  The recursion is bounded by a
  fuel that \<open>strict_loads\<close> sets from the length of the text.
\<close>

definition json_ws :: "char \<Rightarrow> bool" where
  "json_ws c = (c = CHR 0x20 \<or> c = CHR 0x09 \<or> c = CHR 0x0A \<or> c = CHR 0x0D)"

definition skip_ws :: "string \<Rightarrow> string" where
  "skip_ws s = dropWhile json_ws s"

definition is_digit :: "char \<Rightarrow> bool" where
  "is_digit c = (48 \<le> (of_char c :: nat) \<and> (of_char c :: nat) \<le> 57)"

definition digits_val :: "string \<Rightarrow> int" where
  "digits_val ds = foldl (\<lambda>a c. 10 * a + (int (of_char c) - 48)) 0 ds"

fun scan_string :: "string \<Rightarrow> (string \<times> string) option" where
  "scan_string [] = None"
| "scan_string (c # r) =
     (if c = CHR 0x22 then Some ([], r)
      else if c = CHR 0x5C \<or> (of_char c :: nat) < 32 then None
      else (case scan_string r of None \<Rightarrow> None | Some (t, r') \<Rightarrow> Some (c # t, r')))"

definition scan_nat :: "string \<Rightarrow> (int \<times> string) option" where
  "scan_nat s =
     (case s of
        [] \<Rightarrow> None
      | c # r \<Rightarrow>
          if c = CHR ''0'' then Some (0, r)
          else if is_digit c then Some (digits_val (takeWhile is_digit s), dropWhile is_digit s)
          else None)"

definition scan_int :: "string \<Rightarrow> (json \<times> string) option" where
  "scan_int s =
     (case (case s of
              [] \<Rightarrow> None
            | c # r \<Rightarrow> if c = CHR ''-'' then map_option (\<lambda>(n, r'). (- n, r')) (scan_nat r)
                       else scan_nat s) of
        None \<Rightarrow> None
      | Some (n, r) \<Rightarrow>
          (case r of
             [] \<Rightarrow> Some (JInt n, r)
           | d # _ \<Rightarrow> if d = CHR ''.'' \<or> d = CHR ''e'' \<or> d = CHR ''E'' then None
                      else Some (JInt n, r)))"

text \<open>A dict built from key/value pairs: a repeated key keeps its place and takes the last value.\<close>

definition dict_of :: "(string \<times> json) list \<Rightarrow> (string \<times> json) list" where
  "dict_of kvs = foldl (\<lambda>d (k, v). AList.update k v d) [] kvs"

fun parse_value :: "nat \<Rightarrow> string \<Rightarrow> (json \<times> string) option"
  and parse_elems :: "nat \<Rightarrow> string \<Rightarrow> (json list \<times> string) option"
  and parse_members :: "nat \<Rightarrow> string \<Rightarrow> ((string \<times> json) list \<times> string) option"
where
  "parse_value 0 s = None"
| "parse_value (Suc n) s =
     (if take 4 s = ''null'' then Some (JNull, drop 4 s)
      else if take 4 s = ''true'' then Some (JBool True, drop 4 s)
      else if take 5 s = ''false'' then Some (JBool False, drop 5 s)
      else (case s of
              [] \<Rightarrow> None
            | c # r \<Rightarrow>
                if c = CHR 0x22 then
                  (case scan_string r of None \<Rightarrow> None | Some (t, r') \<Rightarrow> Some (JStr t, r'))
                else if c = CHR ''['' then
                  (if take 1 (skip_ws r) = '']'' then Some (JArr [], drop 1 (skip_ws r))
                   else (case parse_elems n (skip_ws r) of
                           None \<Rightarrow> None
                         | Some (vs, r') \<Rightarrow> Some (JArr vs, r')))
                else if c = CHR ''{'' then
                  (if take 1 (skip_ws r) = ''}'' then Some (JObj [], drop 1 (skip_ws r))
                   else (case parse_members n (skip_ws r) of
                           None \<Rightarrow> None
                         | Some (kvs, r') \<Rightarrow> Some (JObj (dict_of kvs), r')))
                else scan_int s))"
| "parse_elems 0 s = None"
| "parse_elems (Suc n) s =
     (case parse_value n s of
        None \<Rightarrow> None
      | Some (v, r) \<Rightarrow>
          (case skip_ws r of
             [] \<Rightarrow> None
           | c # r' \<Rightarrow>
               if c = CHR '','' then
                 (case parse_elems n (skip_ws r') of
                    None \<Rightarrow> None
                  | Some (vs, r'') \<Rightarrow> Some (v # vs, r''))
               else if c = CHR '']'' then Some ([v], r')
               else None))"
| "parse_members 0 s = None"
| "parse_members (Suc n) s =
     (case s of
        [] \<Rightarrow> None
      | q # r \<Rightarrow>
          if q \<noteq> CHR 0x22 then None
          else (case scan_string r of
                  None \<Rightarrow> None
                | Some (k, r1) \<Rightarrow>
                    (case skip_ws r1 of
                       [] \<Rightarrow> None
                     | c # r2 \<Rightarrow>
                         if c \<noteq> CHR '':'' then None
                         else (case parse_value n (skip_ws r2) of
                                 None \<Rightarrow> None
                               | Some (v, r3) \<Rightarrow>
                                   (case skip_ws r3 of
                                      [] \<Rightarrow> None
                                    | d # r4 \<Rightarrow>
                                        if d = CHR '','' then
                                          (case parse_members n (skip_ws r4) of
                                             None \<Rightarrow> None
                                           | Some (kvs, r5) \<Rightarrow> Some ((k, v) # kvs, r5))
                                        else if d = CHR ''}'' then Some ([(k, v)], r4)
                                        else None)))))"

definition strict_loads :: "string \<Rightarrow> pyexn + json" where
  "strict_loads s =
     (case parse_value (2 * length s + 2) (skip_ws s) of
        None \<Rightarrow> Inl (PyExn JSONDecodeError ''Expecting value'')
      | Some (v, r) \<Rightarrow>
          if skip_ws r = [] then Inr v else Inl (PyExn JSONDecodeError ''Extra data''))"

section \<open>Events, messages and the state of a conversation\<close>

text \<open>
  \<open>MsgReturn\<close> (\<open>message/_message_base.py\<close>): the fields the orchestrators read.  \<open>gorType\<close>
  ranges over the five values the adapters produce.
\<close>

datatype gor_type = Think | Answer | Tool | End | Error

record MsgReturn =
  item_content :: string
  gorType :: gor_type

text \<open>An entry of \<open>tool_info\<close>: the dict with the keys \<open>id\<close>, \<open>name\<close> and \<open>arguments\<close>.\<close>

record tool_call =
  call_id :: string
  call_name :: string
  call_arguments :: string

text \<open>
  The outward events.  The source yields each as \<open>b"data: " + encode_json(d) + b"\n\n"\<close>
  for a dict \<open>d\<close> with a \<open>type\<close> key; the model keeps the dict as a typed value:
  \<open>tool_execution\<close> carries tool name, call id and parsed arguments, \<open>tool_result\<close> tool
  name, call id and result text.
\<close>

datatype sse =
    SseThinking string
  | SseAnswer string
  | SseToolCalls "tool_call list"
  | SseToolExecution string string json
  | SseToolResult string string string
  | SseError string
  | SseInterrupted
  | SseEnd

text \<open>
  A message of the history: a dict with \<open>role\<close> and \<open>content\<close> and, on some messages, the
  keys \<open>tool_calls\<close>, \<open>tool_call_id\<close> and \<open>reasoning_content\<close> (\<open>None\<close>: the key is
  absent).  The content is a text or, in the Anthropic format, a list of blocks.
\<close>

datatype block =
    ThinkingBlock string
  | TextBlock string
  | ToolUseBlock string string json
  | ToolResultBlock string string

datatype msg_content = Text string | Blocks "block list"

record message =
  role :: string
  content :: msg_content
  tool_calls :: "tool_call list option"
  tool_call_id :: "string option"
  reasoning_content :: "string option"

text \<open>
  What a conversation loop is run with.  \<open>model_chat env n ms\<close> is the list of items the
  \<open>n\<close>-th call \<open>self.model_chat(messages)\<close> yields on the history \<open>ms\<close>;
  \<open>decode_tool_call\<close> stands for \<open>json.loads(item.content)\<close> followed by the reads of
  \<open>id\<close>, \<open>function.name\<close> and \<open>function.arguments\<close>, and raises when the text is no JSON
  or a key is missing; \<open>execute_tool env name args\<close> is \<open>str(executor.execute_tool(name, args))\<close>
  or the exception raised; \<open>interrupt_check env k\<close> is what the \<open>k\<close>-th call of
  \<open>interrupt_check()\<close> returns.
\<close>

record env =
  model_chat :: "nat \<Rightarrow> message list \<Rightarrow> MsgReturn list"
  decode_tool_call :: "string \<Rightarrow> pyexn + tool_call"
  json_loads :: "string \<Rightarrow> pyexn + json"
  execute_tool :: "string \<Rightarrow> json \<Rightarrow> pyexn + string"
  interrupt_check :: "nat \<Rightarrow> bool"

text \<open>
  The state a generator run threads through: the events yielded so far, the caller's history
  (mutated in place by the source), the number of polls of the interrupt predicate, the
  executor calls made, and the number of model calls made.
\<close>

record state =
  out :: "sse list"
  messages :: "message list"
  polls :: nat
  calls :: "(string \<times> json) list"
  chats :: nat

text \<open>The per-round variables \<open>reasoning_content\<close>, \<open>answer_content\<close> and \<open>tool_info\<close>.\<close>

record round_vars =
  reasoning :: string
  answer_content :: string
  tool_info :: "tool_call list"

text \<open>
  How a piece of generator code ends: it falls through (\<open>Next\<close>), executes \<open>return\<close>, or
  raises.
\<close>

datatype flow = Next | Return | Raise pyexn

text \<open>The fixed texts of the source, as UTF-8 bytes.\<close>

definition args_error_prefix :: string where
  "args_error_prefix =
     [CHR 0xE5, CHR 0xB7, CHR 0xA5, CHR 0xE5, CHR 0x85, CHR 0xB7, CHR 0xE5, CHR 0x8F, CHR 0x82,
      CHR 0xE6, CHR 0x95, CHR 0xB0, CHR 0xE4, CHR 0xB8, CHR 0x8D, CHR 0xE6, CHR 0x98, CHR 0xAF,
      CHR 0xE6, CHR 0x9C, CHR 0x89, CHR 0xE6, CHR 0x95, CHR 0x88, CHR 0xE7, CHR 0x9A, CHR 0x84]
     @ ''JSON: ''"

definition exec_error_prefix :: string where
  "exec_error_prefix =
     [CHR 0xE5, CHR 0xB7, CHR 0xA5, CHR 0xE5, CHR 0x85, CHR 0xB7, CHR 0xE6, CHR 0x89, CHR 0xA7,
      CHR 0xE8, CHR 0xA1, CHR 0x8C, CHR 0xE9, CHR 0x94, CHR 0x99, CHR 0xE8, CHR 0xAF, CHR 0xAF]
     @ '': ''"

definition response_error_prefix :: string where
  "response_error_prefix =
     [CHR 0xE5, CHR 0x93, CHR 0x8D, CHR 0xE5, CHR 0xBA, CHR 0x94, CHR 0xE9, CHR 0x94, CHR 0x99,
      CHR 0xE8, CHR 0xAF, CHR 0xAF] @ '': ''"

definition unbound_tool_name :: pyexn where
  "unbound_tool_name = PyExn UnboundLocalError
     (''cannot access local variable '' @ [CHR 0x27] @ ''tool_name'' @ [CHR 0x27]
      @ '' where it is not associated with a value'')"

definition assistant_text :: "string \<Rightarrow> message" where
  "assistant_text text =
     \<lparr>role = ''assistant'', content = Text text, tool_calls = None, tool_call_id = None,
      reasoning_content = None\<rparr>"

definition tool_message :: "string \<Rightarrow> string \<Rightarrow> message" where
  "tool_message cid text =
     \<lparr>role = ''tool'', content = Text text, tool_calls = None, tool_call_id = Some cid,
      reasoning_content = None\<rparr>"

definition yield :: "sse \<Rightarrow> state \<Rightarrow> state" where
  "yield e s = s\<lparr>out := out s @ [e]\<rparr>"

definition append_message :: "message \<Rightarrow> state \<Rightarrow> state" where
  "append_message m s = s\<lparr>messages := messages s @ [m]\<rparr>"

definition poll :: "state \<Rightarrow> state" where
  "poll s = s\<lparr>polls := Suc (polls s)\<rparr>"

section \<open>The base orchestrator (\<open>models/_model_base.py\<close>)\<close>

subsection \<open>The loop over the items of one model call\<close>

text \<open>
  \<open>for item in response\<close> of \<open>chatToNextLoop\<close>.  The same loop, with the same text, opens
  the rounds of the DeepSeek and the Minimax variants.
\<close>

fun process_items :: "env \<Rightarrow> MsgReturn list \<Rightarrow> round_vars \<Rightarrow> state \<Rightarrow> flow \<times> round_vars \<times> state" where
  "process_items env [] v s = (Next, v, s)"
| "process_items env (item # response) v s =
     (if interrupt_check env (polls s) then (Return, v, yield SseInterrupted (poll s))
      else
        (case gorType item of
           Error \<Rightarrow> (Return, v, yield (SseError (item_content item)) (poll s))
         | Think \<Rightarrow>
             process_items env response
               (v\<lparr>reasoning := reasoning v @ item_content item\<rparr>)
               (yield (SseThinking (item_content item)) (poll s))
         | Answer \<Rightarrow>
             process_items env response
               (v\<lparr>answer_content := answer_content v @ item_content item\<rparr>)
               (yield (SseAnswer (item_content item)) (poll s))
         | Tool \<Rightarrow>
             (case decode_tool_call env (item_content item) of
                Inl e \<Rightarrow> (Raise e, v, poll s)
              | Inr tc \<Rightarrow>
                  process_items env response (v\<lparr>tool_info := tool_info v @ [tc]\<rparr>) (poll s))
         | End \<Rightarrow> process_items env response v (poll s)))"

subsection \<open>\<open>_execute_tools_in_loop\<close>\<close>

text \<open>
  The source appends \<open>assistant_message\<close> to the history and later appends to its
  \<open>tool_calls\<close> list through the same object: \<open>ai\<close> is the index the message was appended
  at, and the later append is an update of the history at \<open>ai\<close>.
\<close>

definition add_tool_call :: "nat \<Rightarrow> tool_call \<Rightarrow> message list \<Rightarrow> message list" where
  "add_tool_call ai tc ms =
     (if ai < length ms then
        ms[ai := (ms ! ai)\<lparr>tool_calls :=
                    Some ((case tool_calls (ms ! ai) of None \<Rightarrow> [] | Some cs \<Rightarrow> cs) @ [tc])\<rparr>]
      else ms)"

text \<open>
  The locals \<open>tool_name\<close> and \<open>tool_call_id\<close> are bound only once the arguments of a call
  have parsed, and keep their values from one call of the round to the next.  The
  \<open>except Exception\<close> clause reads them: unbound, the read raises \<open>UnboundLocalError\<close>
  inside the handler, which leaves the generator.
\<close>

type_synonym tool_locals = "(string \<times> string) option"

definition tool_except :: "pyexn \<Rightarrow> tool_locals \<Rightarrow> state \<Rightarrow> flow \<times> tool_locals \<times> state" where
  "tool_except e l s =
     (case l of
        None \<Rightarrow> (Raise unbound_tool_name, l, s)
      | Some (bound_name, bound_id) \<Rightarrow>
          (let error_msg = exec_error_prefix @ str_exn e in
           (Next, l,
            append_message (tool_message bound_id error_msg)
              (yield (SseToolResult bound_name bound_id error_msg) s))))"

text \<open>The body of \<open>for tool in tool_info\<close> after the interrupt check.\<close>

definition execute_one_tool ::
  "env \<Rightarrow> nat \<Rightarrow> tool_call \<Rightarrow> tool_locals \<Rightarrow> state \<Rightarrow> flow \<times> tool_locals \<times> state" where
  "execute_one_tool env ai tool l s =
     (case try_parse_tool_arguments (json_loads env) (call_arguments tool) of
        Inl e \<Rightarrow> tool_except e l s
      | Inr tool_args \<Rightarrow>
          if tool_args = JNull then
            (let error_msg = args_error_prefix @ call_arguments tool in
             (Next, l,
              append_message (tool_message (call_id tool) error_msg)
                (yield (SseToolResult (call_name tool) (call_id tool) error_msg) s)))
          else
            (let l' = Some (call_name tool, call_id tool);
                 s1 = yield (SseToolExecution (call_name tool) (call_id tool) tool_args) s;
                 s2 = s1\<lparr>calls := calls s1 @ [(call_name tool, tool_args)]\<rparr>
             in case execute_tool env (call_name tool) tool_args of
                  Inl e \<Rightarrow> tool_except e l' s2
                | Inr result \<Rightarrow>
                    (let s3 = yield (SseToolResult (call_name tool) (call_id tool) result) s2;
                         s4 = s3\<lparr>messages := add_tool_call ai tool (messages s3)\<rparr>
                     in (Next, l', append_message (tool_message (call_id tool) result) s4))))"

fun tools_loop :: "env \<Rightarrow> nat \<Rightarrow> tool_call list \<Rightarrow> tool_locals \<Rightarrow> state \<Rightarrow> flow \<times> state" where
  "tools_loop env ai [] l s = (Next, s)"
| "tools_loop env ai (tool # rest) l s =
     (if interrupt_check env (polls s) then (Return, yield SseInterrupted (poll s))
      else
        (case execute_one_tool env ai tool l (poll s) of
           (Next, l', s') \<Rightarrow> tools_loop env ai rest l' s'
         | (fl, l', s') \<Rightarrow> (fl, s')))"

definition execute_tools_in_loop :: "env \<Rightarrow> tool_call list \<Rightarrow> state \<Rightarrow> flow \<times> state" where
  "execute_tools_in_loop env tools s =
     (let assistant_message =
            \<lparr>role = ''assistant'', content = Text [], tool_calls = Some [],
             tool_call_id = None, reasoning_content = None\<rparr>;
          ai = length (messages s);
          s1 = append_message assistant_message s;
          s2 = yield (SseToolCalls tools) s1
      in tools_loop env ai tools None s2)"

subsection \<open>\<open>chatToNextLoop\<close>\<close>

definition empty_vars :: round_vars where
  "empty_vars = \<lparr>reasoning = [], answer_content = [], tool_info = []\<rparr>"

text \<open>
  One pass of the body of \<open>while is_first_round or tool_info\<close>.  \<open>yield from\<close> resumes the
  body when the tool generator ends, whether it ran through its loop or executed \<open>return\<close>;
  only an exception leaves the body.
\<close>

definition chat_round :: "env \<Rightarrow> state \<Rightarrow> flow \<times> round_vars \<times> state" where
  "chat_round env s =
     (let response = model_chat env (chats s) (messages s);
          s0 = s\<lparr>chats := Suc (chats s)\<rparr>
      in case process_items env response empty_vars s0 of
           (Next, v, s1) \<Rightarrow>
             if tool_info v \<noteq> [] then
               (if interrupt_check env (polls s1) then (Return, v, yield SseInterrupted (poll s1))
                else (case execute_tools_in_loop env (tool_info v) (poll s1) of
                        (Raise e, s2) \<Rightarrow> (Raise e, v, s2)
                      | (fl, s2) \<Rightarrow> (Next, v, s2)))
             else if answer_content v \<noteq> [] then
               (Next, v, append_message (assistant_text (answer_content v)) s1)
             else (Next, v, s1)
         | r \<Rightarrow> r)"

text \<open>
  \<open>while is_first_round or tool_info\<close>, with the body of the loop as the parameter
  \<open>round\<close> (the three orchestrators have the same loop around different bodies; the
  Minimax flag \<open>has_tool_calls\<close> is set by each round to whether it saw a tool call).  The
  loop may run for ever (a model that asks for tools in every round), so it is bounded by a
  fuel: \<open>None\<close> means the fuel ran out before the loop ended.
\<close>

fun chat_loop ::
  "(env \<Rightarrow> state \<Rightarrow> flow \<times> round_vars \<times> state) \<Rightarrow> nat \<Rightarrow> env \<Rightarrow> bool \<Rightarrow> round_vars \<Rightarrow> state
     \<Rightarrow> (flow \<times> round_vars \<times> state) option" where
  "chat_loop round 0 env is_first_round v s =
     (if is_first_round \<or> tool_info v \<noteq> [] then None else Some (Next, v, s))"
| "chat_loop round (Suc n) env is_first_round v s =
     (if is_first_round \<or> tool_info v \<noteq> [] then
        (case round env s of
           (Next, v', s') \<Rightarrow> chat_loop round n env False v' s'
         | r \<Rightarrow> Some r)
      else Some (Next, v, s))"

definition initial_state :: "message list \<Rightarrow> state" where
  "initial_state ms = \<lparr>out = [], messages = ms, polls = 0, calls = [], chats = 0\<rparr>"

text \<open>The code after the \<open>while\<close> loop: the guarded append and the \<open>end\<close> event.\<close>

definition already_answered :: "message list \<Rightarrow> string \<Rightarrow> bool" where
  "already_answered ms answer =
     (ms \<noteq> [] \<and> role (last ms) = ''assistant'' \<and> content (last ms) = Text answer)"

definition finish :: "round_vars \<Rightarrow> state \<Rightarrow> state" where
  "finish v s =
     (let s' = (if tool_info v = [] \<and> answer_content v \<noteq> [] then
                  (if \<not> already_answered (messages s) (answer_content v)
                   then append_message (assistant_text (answer_content v)) s else s)
                else s)
      in yield SseEnd s')"

definition close_generator :: "(flow \<times> round_vars \<times> state) option \<Rightarrow> (round_vars \<Rightarrow> state \<Rightarrow> state) \<Rightarrow> state option" where
  "close_generator r after =
     (case r of
        None \<Rightarrow> None
      | Some (Next, v, s) \<Rightarrow> Some (after v s)
      | Some (Return, v, s) \<Rightarrow> Some s
      | Some (Raise e, v, s) \<Rightarrow> Some (yield (SseError (response_error_prefix @ str_exn e)) s))"

definition chatToNextLoop :: "nat \<Rightarrow> env \<Rightarrow> message list \<Rightarrow> state option" where
  "chatToNextLoop fuel env ms =
     close_generator (chat_loop chat_round fuel env True empty_vars (initial_state ms)) finish"

section \<open>The DeepSeek orchestrator (\<open>models/_deepseek_openai_model.py\<close>)\<close>

definition deepseek_execute_one_tool ::
  "env \<Rightarrow> tool_call \<Rightarrow> tool_locals \<Rightarrow> state \<Rightarrow> flow \<times> tool_locals \<times> state" where
  "deepseek_execute_one_tool env tool l s =
     (case try_parse_tool_arguments (json_loads env) (call_arguments tool) of
        Inl e \<Rightarrow> tool_except e l s
      | Inr tool_args \<Rightarrow>
          if tool_args = JNull then
            (let error_msg = args_error_prefix @ call_arguments tool in
             (Next, l,
              append_message (tool_message (call_id tool) error_msg)
                (yield (SseToolResult (call_name tool) (call_id tool) error_msg) s)))
          else
            (let l' = Some (call_name tool, call_id tool);
                 s1 = yield (SseToolExecution (call_name tool) (call_id tool) tool_args) s;
                 s2 = s1\<lparr>calls := calls s1 @ [(call_name tool, tool_args)]\<rparr>
             in case execute_tool env (call_name tool) tool_args of
                  Inl e \<Rightarrow> tool_except e l' s2
                | Inr result \<Rightarrow>
                    (Next, l',
                     append_message (tool_message (call_id tool) result)
                       (yield (SseToolResult (call_name tool) (call_id tool) result) s2))))"

fun deepseek_tools_loop :: "env \<Rightarrow> tool_call list \<Rightarrow> tool_locals \<Rightarrow> state \<Rightarrow> flow \<times> state" where
  "deepseek_tools_loop env [] l s = (Next, s)"
| "deepseek_tools_loop env (tool # rest) l s =
     (if interrupt_check env (polls s) then (Return, yield SseInterrupted (poll s))
      else
        (case deepseek_execute_one_tool env tool l (poll s) of
           (Next, l', s') \<Rightarrow> deepseek_tools_loop env rest l' s'
         | (fl, l', s') \<Rightarrow> (fl, s')))"

text \<open>
  \<open>_execute_tools_in_loop_deepseek\<close>: the assistant message carries the answer text, the
  reasoning text and every tool call of the round, and is appended before any tool runs.
\<close>

definition deepseek_assistant_message :: "string \<Rightarrow> string \<Rightarrow> tool_call list \<Rightarrow> message" where
  "deepseek_assistant_message answer reasoning_text tools =
     \<lparr>role = ''assistant'', content = Text (if answer \<noteq> [] then answer else []),
      tool_calls = Some tools, tool_call_id = None, reasoning_content = Some reasoning_text\<rparr>"

definition execute_tools_in_loop_deepseek ::
  "env \<Rightarrow> tool_call list \<Rightarrow> string \<Rightarrow> string \<Rightarrow> state \<Rightarrow> flow \<times> state" where
  "execute_tools_in_loop_deepseek env tools answer reasoning_text s =
     (let s1 = append_message (deepseek_assistant_message answer reasoning_text tools) s;
          s2 = yield (SseToolCalls tools) s1
      in deepseek_tools_loop env tools None s2)"

definition deepseek_round :: "env \<Rightarrow> state \<Rightarrow> flow \<times> round_vars \<times> state" where
  "deepseek_round env s =
     (let response = model_chat env (chats s) (messages s);
          s0 = s\<lparr>chats := Suc (chats s)\<rparr>
      in case process_items env response empty_vars s0 of
           (Next, v, s1) \<Rightarrow>
             if tool_info v \<noteq> [] then
               (if interrupt_check env (polls s1) then (Return, v, yield SseInterrupted (poll s1))
                else (case execute_tools_in_loop_deepseek env (tool_info v) (answer_content v)
                             (reasoning v) (poll s1) of
                        (Raise e, s2) \<Rightarrow> (Raise e, v, s2)
                      | (fl, s2) \<Rightarrow> (Next, v, s2)))
             else if answer_content v \<noteq> [] then
               (Next, v, append_message (assistant_text (answer_content v)) s1)
             else (Next, v, s1)
         | r \<Rightarrow> r)"

definition deepseek_chatToNextLoop :: "nat \<Rightarrow> env \<Rightarrow> message list \<Rightarrow> state option" where
  "deepseek_chatToNextLoop fuel env ms =
     close_generator (chat_loop deepseek_round fuel env True empty_vars (initial_state ms))
       (\<lambda>v s. yield SseEnd s)"

section \<open>The Minimax orchestrator (\<open>models/_minimax_anthropic_model.py\<close>)\<close>

text \<open>
  The block array of a round: a thinking block and a text block when the texts are not empty,
  then one \<open>tool_use\<close> block per tool call, whose \<open>input\<close> is \<open>json.loads\<close> of the argument
  text.  That call is not guarded: its exception leaves the round.
\<close>

fun tool_use_blocks :: "(string \<Rightarrow> pyexn + json) \<Rightarrow> tool_call list \<Rightarrow> pyexn + block list" where
  "tool_use_blocks loads [] = Inr []"
| "tool_use_blocks loads (t # ts) =
     (case loads (call_arguments t) of
        Inl e \<Rightarrow> Inl e
      | Inr j \<Rightarrow>
          (case tool_use_blocks loads ts of
             Inl e \<Rightarrow> Inl e
           | Inr bs \<Rightarrow> Inr (ToolUseBlock (call_id t) (call_name t) j # bs)))"

definition content_blocks :: "(string \<Rightarrow> pyexn + json) \<Rightarrow> round_vars \<Rightarrow> pyexn + block list" where
  "content_blocks loads v =
     (case tool_use_blocks loads (tool_info v) of
        Inl e \<Rightarrow> Inl e
      | Inr bs \<Rightarrow>
          Inr ((if reasoning v \<noteq> [] then [ThinkingBlock (reasoning v)] else [])
               @ (if answer_content v \<noteq> [] then [TextBlock (answer_content v)] else [])
               @ bs))"

definition minimax_tool_except ::
  "pyexn \<Rightarrow> tool_locals \<Rightarrow> block list \<Rightarrow> state \<Rightarrow> flow \<times> tool_locals \<times> block list \<times> state" where
  "minimax_tool_except e l tool_results s =
     (case l of
        None \<Rightarrow> (Raise unbound_tool_name, l, tool_results, s)
      | Some (bound_name, bound_id) \<Rightarrow>
          (let error_msg = exec_error_prefix @ str_exn e in
           (Next, l, tool_results @ [ToolResultBlock bound_id error_msg],
            yield (SseToolResult bound_name bound_id error_msg) s)))"

definition minimax_execute_one_tool ::
  "env \<Rightarrow> tool_call \<Rightarrow> tool_locals \<Rightarrow> block list \<Rightarrow> state
     \<Rightarrow> flow \<times> tool_locals \<times> block list \<times> state" where
  "minimax_execute_one_tool env tool l tool_results s =
     (case try_parse_tool_arguments (json_loads env) (call_arguments tool) of
        Inl e \<Rightarrow> minimax_tool_except e l tool_results s
      | Inr tool_args \<Rightarrow>
          if tool_args = JNull then
            (let error_msg = args_error_prefix @ call_arguments tool in
             (Next, l, tool_results @ [ToolResultBlock (call_id tool) error_msg],
              yield (SseToolResult (call_name tool) (call_id tool) error_msg) s))
          else
            (let l' = Some (call_name tool, call_id tool);
                 s1 = yield (SseToolExecution (call_name tool) (call_id tool) tool_args) s;
                 s2 = s1\<lparr>calls := calls s1 @ [(call_name tool, tool_args)]\<rparr>
             in case execute_tool env (call_name tool) tool_args of
                  Inl e \<Rightarrow> minimax_tool_except e l' tool_results s2
                | Inr result \<Rightarrow>
                    (Next, l', tool_results @ [ToolResultBlock (call_id tool) result],
                     yield (SseToolResult (call_name tool) (call_id tool) result) s2)))"

fun minimax_tools_loop ::
  "env \<Rightarrow> tool_call list \<Rightarrow> tool_locals \<Rightarrow> block list \<Rightarrow> state \<Rightarrow> flow \<times> block list \<times> state" where
  "minimax_tools_loop env [] l tool_results s = (Next, tool_results, s)"
| "minimax_tools_loop env (tool # rest) l tool_results s =
     (if interrupt_check env (polls s) then (Return, tool_results, yield SseInterrupted (poll s))
      else
        (case minimax_execute_one_tool env tool l tool_results (poll s) of
           (Next, l', tool_results', s') \<Rightarrow> minimax_tools_loop env rest l' tool_results' s'
         | (fl, l', tool_results', s') \<Rightarrow> (fl, tool_results', s')))"

definition user_tool_results :: "block list \<Rightarrow> message" where
  "user_tool_results tool_results =
     \<lparr>role = ''user'', content = Blocks tool_results, tool_calls = None, tool_call_id = None,
      reasoning_content = None\<rparr>"

text \<open>
  \<open>_execute_tools_minimax_style\<close>: the user message is appended after the loop; the
  \<open>return\<close> of an interrupt and an exception both skip it.
\<close>

definition execute_tools_minimax_style :: "env \<Rightarrow> tool_call list \<Rightarrow> state \<Rightarrow> flow \<times> state" where
  "execute_tools_minimax_style env tools s =
     (case minimax_tools_loop env tools None [] s of
        (Next, tool_results, s') \<Rightarrow> (Next, append_message (user_tool_results tool_results) s')
      | (fl, tool_results, s') \<Rightarrow> (fl, s'))"

definition assistant_blocks :: "block list \<Rightarrow> message" where
  "assistant_blocks bs =
     \<lparr>role = ''assistant'', content = Blocks bs, tool_calls = None, tool_call_id = None,
      reasoning_content = None\<rparr>"

definition minimax_round :: "env \<Rightarrow> state \<Rightarrow> flow \<times> round_vars \<times> state" where
  "minimax_round env s =
     (let response = model_chat env (chats s) (messages s);
          s0 = s\<lparr>chats := Suc (chats s)\<rparr>
      in case process_items env response empty_vars s0 of
           (Next, v, s1) \<Rightarrow>
             (case content_blocks (json_loads env) v of
                Inl e \<Rightarrow> (Raise e, v, s1)
              | Inr blocks \<Rightarrow>
                  if tool_info v \<noteq> [] then
                    (if interrupt_check env (polls s1)
                     then (Return, v, yield SseInterrupted (poll s1))
                     else
                       (let s2 = append_message (assistant_blocks blocks) (poll s1);
                            s3 = yield (SseToolCalls (tool_info v)) s2
                        in case execute_tools_minimax_style env (tool_info v) s3 of
                             (Raise e, s4) \<Rightarrow> (Raise e, v, s4)
                           | (fl, s4) \<Rightarrow> (Next, v, s4)))
                  else if answer_content v \<noteq> [] then
                    (Next, v, append_message (assistant_text (answer_content v)) s1)
                  else (Next, v, s1))
         | r \<Rightarrow> r)"

definition minimax_chatToNextLoop :: "nat \<Rightarrow> env \<Rightarrow> message list \<Rightarrow> state option" where
  "minimax_chatToNextLoop fuel env ms =
     close_generator (chat_loop minimax_round fuel env True empty_vars (initial_state ms))
       (\<lambda>v s. yield SseEnd s)"

section \<open>The provider adapters\<close>

text \<open>
  A generator of \<open>MsgReturn\<close> items is modelled by what it yields and how it ends: the list of
  items and, when it ends by raising, the exception.  \<open>json.dumps\<close> is a parameter:
  \<open>dumps_tool\<close> encodes the dict of a tool call, \<open>dumps\<close> a JSON value.
\<close>

type_synonym generated = "MsgReturn list \<times> pyexn option"

text \<open>
  What the provider's SDK hands to a streaming handler: the call \<open>create(...)\<close> raises, or
  it returns an iterator that gives chunks and then either stops or raises.  For the Anthropic
  adapter the first case also stands for an exception while the request is built.
\<close>

datatype 'c transport = CreateRaises pyexn | Chunks "'c list" "pyexn option"

definition msg :: "gor_type \<Rightarrow> string \<Rightarrow> MsgReturn" where
  "msg g text = \<lparr>item_content = text, gorType = g\<rparr>"

text \<open>The \<open>except Exception\<close> clause of both \<open>model_chat\<close> methods.\<close>

definition catch_all :: "generated \<Rightarrow> MsgReturn list" where
  "catch_all g =
     (case g of
        (items, None) \<Rightarrow> items
      | (items, Some e) \<Rightarrow> items @ [msg Error (''Error: '' @ str_exn e)])"

definition tool_items :: "(tool_call \<Rightarrow> string) \<Rightarrow> tool_call list \<Rightarrow> MsgReturn list" where
  "tool_items dumps_tool tcs = map (\<lambda>tc. msg Tool (dumps_tool tc)) tcs"

subsection \<open>OpenAI (\<open>models/_openai_model.py\<close>)\<close>

text \<open>
  A streamed chunk has a list of choices, each with a delta; the delta has optional
  \<open>reasoning_content\<close>, \<open>content\<close> and \<open>tool_calls\<close>; a tool-call delta has an optional
  index, an optional id and an optional function part with optional name and arguments.
\<close>

record function_delta =
  fn_name :: "string option"
  fn_arguments :: "string option"

record tool_call_delta =
  delta_index :: "int option"
  delta_id :: "string option"
  delta_function :: "function_delta option"

record choice_delta =
  delta_reasoning_content :: "string option"
  delta_content :: "string option"
  delta_tool_calls :: "tool_call_delta list option"

type_synonym chunk = "choice_delta list"

text \<open>\<open>x or ""\<close> and the truth value of an optional string.\<close>

definition or_empty :: "string option \<Rightarrow> string" where
  "or_empty x = (case x of None \<Rightarrow> [] | Some t \<Rightarrow> t)"

definition truthy :: "string option \<Rightarrow> bool" where
  "truthy x = (case x of None \<Rightarrow> False | Some t \<Rightarrow> t \<noteq> [])"

text \<open>
  \<open>tool_calls_dict\<close>: a dict from index to the record of the call, in insertion order.  The
  body of \<open>for tool_call_delta in delta.tool_calls\<close>: a new index creates a record, reading
  \<open>tool_call_delta.function.name\<close> without a test (an absent function part raises
  \<open>AttributeError\<close>); a known index fills an empty id and appends name and arguments.
\<close>

type_synonym tool_calls_dict = "(int \<times> tool_call) list"

definition none_has_no_name :: pyexn where
  "none_has_no_name = PyExn AttributeError
     ([CHR 0x27] @ ''NoneType'' @ [CHR 0x27] @ '' object has no attribute ''
      @ [CHR 0x27] @ ''name'' @ [CHR 0x27])"

definition accumulate_delta :: "tool_calls_dict \<Rightarrow> tool_call_delta \<Rightarrow> pyexn + tool_calls_dict" where
  "accumulate_delta d tcd =
     (case delta_index tcd of
        None \<Rightarrow> Inr d
      | Some tool_index \<Rightarrow>
          (case map_of d tool_index of
             None \<Rightarrow>
               (case delta_function tcd of
                  None \<Rightarrow> Inl none_has_no_name
                | Some f \<Rightarrow>
                    Inr (d @ [(tool_index,
                               \<lparr>call_id = or_empty (delta_id tcd),
                                call_name = or_empty (fn_name f),
                                call_arguments = or_empty (fn_arguments f)\<rparr>)]))
           | Some current_tool \<Rightarrow>
               (let c1 = (if truthy (delta_id tcd) \<and> call_id current_tool = []
                          then current_tool\<lparr>call_id := or_empty (delta_id tcd)\<rparr>
                          else current_tool);
                    c2 = (case delta_function tcd of
                            None \<Rightarrow> c1
                          | Some f \<Rightarrow>
                              if truthy (fn_name f)
                              then c1\<lparr>call_name := call_name c1 @ or_empty (fn_name f)\<rparr>
                              else c1);
                    c3 = (case delta_function tcd of
                            None \<Rightarrow> c2
                          | Some f \<Rightarrow>
                              if truthy (fn_arguments f)
                              then c2\<lparr>call_arguments := call_arguments c2 @ or_empty (fn_arguments f)\<rparr>
                              else c2)
                in Inr (AList.update tool_index c3 d))))"

fun accumulate_deltas :: "tool_calls_dict \<Rightarrow> tool_call_delta list \<Rightarrow> pyexn + tool_calls_dict" where
  "accumulate_deltas d [] = Inr d"
| "accumulate_deltas d (tcd # rest) =
     (case accumulate_delta d tcd of
        Inl e \<Rightarrow> Inl e
      | Inr d' \<Rightarrow> accumulate_deltas d' rest)"

text \<open>
  \<open>[tool_calls_dict[i] for i in sorted(tool_calls_dict.keys()) if tool_calls_dict[i]['id']]\<close>
\<close>

definition finalize_tool_calls :: "tool_calls_dict \<Rightarrow> tool_call list" where
  "finalize_tool_calls d =
     concat (map (\<lambda>i. case map_of d i of
                         None \<Rightarrow> []
                       | Some tc \<Rightarrow> if call_id tc \<noteq> [] then [tc] else [])
                 (sort (map fst d)))"

text \<open>
  The body of \<open>for chunk in response\<close>: the items the chunk yields, and the dict after it or
  the exception raised while its tool-call deltas are read.
\<close>

definition process_chunk :: "chunk \<Rightarrow> tool_calls_dict \<Rightarrow> MsgReturn list \<times> (pyexn + tool_calls_dict)" where
  "process_chunk c d =
     (case c of
        [] \<Rightarrow> ([], Inr d)
      | delta # others \<Rightarrow>
          ((if truthy (delta_reasoning_content delta)
            then [msg Think (or_empty (delta_reasoning_content delta))] else [])
           @ (if truthy (delta_content delta)
              then [msg Answer (or_empty (delta_content delta))] else []),
           (case delta_tool_calls delta of
              None \<Rightarrow> Inr d
            | Some tcds \<Rightarrow> accumulate_deltas d tcds)))"

fun process_chunks :: "chunk list \<Rightarrow> tool_calls_dict \<Rightarrow> MsgReturn list \<times> (pyexn + tool_calls_dict)" where
  "process_chunks [] d = ([], Inr d)"
| "process_chunks (c # cs) d =
     (case process_chunk c d of
        (items, Inl e) \<Rightarrow> (items, Inl e)
      | (items, Inr d') \<Rightarrow>
          (case process_chunks cs d' of (items', r) \<Rightarrow> (items @ items', r)))"

definition openai_handle_stream_response :: "(tool_call \<Rightarrow> string) \<Rightarrow> chunk transport \<Rightarrow> generated" where
  "openai_handle_stream_response dumps_tool tr =
     (case tr of
        CreateRaises e \<Rightarrow> ([], Some e)
      | Chunks cs stop \<Rightarrow>
          (case process_chunks cs [] of
             (items, Inl e) \<Rightarrow> (items, Some e)
           | (items, Inr d) \<Rightarrow>
               (case stop of
                  Some e \<Rightarrow> (items, Some e)
                | None \<Rightarrow>
                    (items @ tool_items dumps_tool (finalize_tool_calls d) @ [msg End []],
                     None))))"

text \<open>
  The whole response of the non-streaming call: its choices, each a message with optional
  content and optional tool calls.  \<open>response.choices[0]\<close> raises on an empty list.
\<close>

record chat_message =
  message_content :: "string option"
  message_tool_calls :: "tool_call list option"

definition openai_handle_normal_response ::
  "(tool_call \<Rightarrow> string) \<Rightarrow> pyexn + chat_message list \<Rightarrow> generated" where
  "openai_handle_normal_response dumps_tool r =
     (case r of
        Inl e \<Rightarrow> ([], Some e)
      | Inr [] \<Rightarrow> ([], Some (PyExn IndexError ''list index out of range''))
      | Inr (m # others) \<Rightarrow>
          ((if truthy (message_content m) then [msg Answer (or_empty (message_content m))] else [])
           @ (case message_tool_calls m of
                None \<Rightarrow> []
              | Some tcs \<Rightarrow> tool_items dumps_tool tcs)
           @ [msg End []],
           None))"

datatype openai_response =
    OpenaiStream "chunk transport"
  | OpenaiWhole "pyexn + chat_message list"

definition openai_model_chat :: "(tool_call \<Rightarrow> string) \<Rightarrow> openai_response \<Rightarrow> MsgReturn list" where
  "openai_model_chat dumps_tool r =
     catch_all (case r of
                  OpenaiStream tr \<Rightarrow> openai_handle_stream_response dumps_tool tr
                | OpenaiWhole w \<Rightarrow> openai_handle_normal_response dumps_tool w)"

subsection \<open>Anthropic (\<open>models/_anthropic_model.py\<close>)\<close>

datatype block_start = StartToolUse string string | StartThinking | StartText | StartOther

datatype block_delta = TextDelta string | ThinkingDelta string | InputJsonDelta string | OtherDelta

datatype anthropic_chunk =
    MessageStart
  | ContentBlockStart block_start
  | ContentBlockDelta block_delta
  | ContentBlockStop
  | MessageDelta
  | MessageStop
  | OtherChunk

datatype content_type = ThinkingType | TextType

record stream_vars =
  finished_tool_calls :: "tool_call list"
  current_tool_call :: "tool_call option"
  current_content_type :: "content_type option"

definition anthropic_chunk_step :: "anthropic_chunk \<Rightarrow> stream_vars \<Rightarrow> MsgReturn list \<times> stream_vars" where
  "anthropic_chunk_step c v =
     (case c of
        ContentBlockStart b \<Rightarrow>
          (case b of
             StartToolUse tid tname \<Rightarrow>
               ([], v\<lparr>current_tool_call :=
                        Some \<lparr>call_id = tid, call_name = tname, call_arguments = []\<rparr>\<rparr>)
           | StartThinking \<Rightarrow> ([], v\<lparr>current_content_type := Some ThinkingType\<rparr>)
           | StartText \<Rightarrow> ([], v\<lparr>current_content_type := Some TextType\<rparr>)
           | StartOther \<Rightarrow> ([], v))
      | ContentBlockDelta dl \<Rightarrow>
          (case dl of
             TextDelta text_delta \<Rightarrow>
               (if current_content_type v = Some ThinkingType
                then ([msg Think text_delta], v) else ([msg Answer text_delta], v))
           | ThinkingDelta thinking_delta \<Rightarrow> ([msg Think thinking_delta], v)
           | InputJsonDelta partial_json \<Rightarrow>
               (case current_tool_call v of
                  None \<Rightarrow> ([], v)
                | Some tc \<Rightarrow>
                    ([], v\<lparr>current_tool_call :=
                             Some (tc\<lparr>call_arguments := call_arguments tc @ partial_json\<rparr>)\<rparr>))
           | OtherDelta \<Rightarrow> ([], v))
      | ContentBlockStop \<Rightarrow>
          (case current_tool_call v of
             None \<Rightarrow> ([], v\<lparr>current_content_type := None\<rparr>)
           | Some tc \<Rightarrow>
               ([], v\<lparr>finished_tool_calls := finished_tool_calls v @ [tc],
                      current_tool_call := None, current_content_type := None\<rparr>))
      | _ \<Rightarrow> ([], v))"

fun anthropic_chunks :: "anthropic_chunk list \<Rightarrow> stream_vars \<Rightarrow> MsgReturn list \<times> stream_vars" where
  "anthropic_chunks [] v = ([], v)"
| "anthropic_chunks (c # cs) v =
     (case anthropic_chunk_step c v of
        (items, v') \<Rightarrow> (case anthropic_chunks cs v' of (items', v'') \<Rightarrow> (items @ items', v'')))"

definition anthropic_handle_stream_response ::
  "(tool_call \<Rightarrow> string) \<Rightarrow> anthropic_chunk transport \<Rightarrow> generated" where
  "anthropic_handle_stream_response dumps_tool tr =
     (case tr of
        CreateRaises e \<Rightarrow> ([], Some e)
      | Chunks cs stop \<Rightarrow>
          (case anthropic_chunks cs
                  \<lparr>finished_tool_calls = [], current_tool_call = None,
                   current_content_type = None\<rparr> of
             (items, v) \<Rightarrow>
               (case stop of
                  Some e \<Rightarrow> (items, Some e)
                | None \<Rightarrow>
                    (items @ tool_items dumps_tool (finished_tool_calls v) @ [msg End []],
                     None))))"

datatype response_block =
    ResponseText string
  | ResponseThinking string
  | ResponseToolUse string string json
  | ResponseOther

definition response_text :: "response_block list \<Rightarrow> string" where
  "response_text bs = concat (map (\<lambda>b. case b of ResponseText t \<Rightarrow> t | _ \<Rightarrow> []) bs)"

definition response_thinking :: "response_block list \<Rightarrow> string" where
  "response_thinking bs = concat (map (\<lambda>b. case b of ResponseThinking t \<Rightarrow> t | _ \<Rightarrow> []) bs)"

definition response_tool_calls :: "(json \<Rightarrow> string) \<Rightarrow> response_block list \<Rightarrow> tool_call list" where
  "response_tool_calls dumps bs =
     concat (map (\<lambda>b. case b of
                         ResponseToolUse tid tname input \<Rightarrow>
                           [\<lparr>call_id = tid, call_name = tname, call_arguments = dumps input\<rparr>]
                       | _ \<Rightarrow> []) bs)"

definition anthropic_handle_normal_response ::
  "(tool_call \<Rightarrow> string) \<Rightarrow> (json \<Rightarrow> string) \<Rightarrow> pyexn + response_block list \<Rightarrow> generated" where
  "anthropic_handle_normal_response dumps_tool dumps r =
     (case r of
        Inl e \<Rightarrow> ([], Some e)
      | Inr bs \<Rightarrow>
          ((if response_thinking bs \<noteq> [] then [msg Think (response_thinking bs)] else [])
           @ (if response_text bs \<noteq> [] then [msg Answer (response_text bs)] else [])
           @ tool_items dumps_tool (response_tool_calls dumps bs)
           @ [msg End []],
           None))"

datatype anthropic_response =
    AnthropicStream "anthropic_chunk transport"
  | AnthropicWhole "pyexn + response_block list"

definition anthropic_model_chat ::
  "(tool_call \<Rightarrow> string) \<Rightarrow> (json \<Rightarrow> string) \<Rightarrow> anthropic_response \<Rightarrow> MsgReturn list" where
  "anthropic_model_chat dumps_tool dumps r =
     catch_all (case r of
                  AnthropicStream tr \<Rightarrow> anthropic_handle_stream_response dumps_tool tr
                | AnthropicWhole w \<Rightarrow> anthropic_handle_normal_response dumps_tool dumps w)"

text \<open>
  \<open>create_model\<close> gives the routers \<open>openai-chat\<close> and \<open>deepseek-openai\<close> the OpenAI
  \<open>model_chat\<close> and the routers \<open>anthropic\<close> and \<open>minimax-anthropic\<close> the Anthropic one (the
  two subclasses do not override it).
\<close>

section \<open>What a round is expected to do, in the words of the specification\<close>


text \<open>
  The arguments of a call as the executor gets them: \<open>None\<close> when the argument text does not
  parse (the parser returns \<open>None\<close>).
\<close>

definition parsed_arguments :: "env \<Rightarrow> tool_call \<Rightarrow> json option" where
  "parsed_arguments env t =
     (case try_parse_tool_arguments (json_loads env) (call_arguments t) of
        Inl e \<Rightarrow> None
      | Inr a \<Rightarrow> if a = JNull then None else Some a)"

text \<open>
  The result text of a call: a descriptive error for arguments that do not parse, the
  stringified exception (after a fixed label) when the executor raises, the result otherwise.
\<close>

definition tool_result_text :: "env \<Rightarrow> tool_call \<Rightarrow> string" where
  "tool_result_text env t =
     (case parsed_arguments env t of
        None \<Rightarrow> args_error_prefix @ call_arguments t
      | Some a \<Rightarrow>
          (case execute_tool env (call_name t) a of
             Inl e \<Rightarrow> exec_error_prefix @ str_exn e
           | Inr r \<Rightarrow> r))"

text \<open>The events of a call: \<open>tool_execution\<close> only when the executor is invoked, then \<open>tool_result\<close>.\<close>

definition tool_events :: "env \<Rightarrow> tool_call \<Rightarrow> sse list" where
  "tool_events env t =
     (case parsed_arguments env t of
        None \<Rightarrow> []
      | Some a \<Rightarrow> [SseToolExecution (call_name t) (call_id t) a])
     @ [SseToolResult (call_name t) (call_id t) (tool_result_text env t)]"

text \<open>The executor invocations of a call: none when the arguments do not parse.\<close>

definition executor_calls :: "env \<Rightarrow> tool_call \<Rightarrow> (string \<times> json) list" where
  "executor_calls env t =
     (case parsed_arguments env t of None \<Rightarrow> [] | Some a \<Rightarrow> [(call_name t, a)])"



text \<open>The outward events of the items of a model call that is neither interrupted nor failing.\<close>

definition item_events :: "MsgReturn \<Rightarrow> sse list" where
  "item_events item =
     (case gorType item of
        Think \<Rightarrow> [SseThinking (item_content item)]
      | Answer \<Rightarrow> [SseAnswer (item_content item)]
      | _ \<Rightarrow> [])"

definition items_text :: "gor_type \<Rightarrow> MsgReturn list \<Rightarrow> string" where
  "items_text g items = concat (map item_content (filter (\<lambda>i. gorType i = g) items))"

definition decoded_tools :: "env \<Rightarrow> MsgReturn list \<Rightarrow> tool_call list" where
  "decoded_tools env items =
     concat (map (\<lambda>i. case decode_tool_call env (item_content i) of Inl e \<Rightarrow> [] | Inr tc \<Rightarrow> [tc])
                 (filter (\<lambda>i. gorType i = Tool) items))"

text \<open>
  A model call runs undisturbed: no item is an error, every tool item decodes, and the
  interrupt predicate is false at each of the polls \<open>k, \<dots>, k + n - 1\<close>.
\<close>

definition no_interrupt :: "env \<Rightarrow> nat \<Rightarrow> nat \<Rightarrow> bool" where
  "no_interrupt env k n = list_all (\<lambda>i. \<not> interrupt_check env (k + i)) [0..<n]"

definition clean_items :: "env \<Rightarrow> MsgReturn list \<Rightarrow> bool" where
  "clean_items env items =
     list_all (\<lambda>i. gorType i \<noteq> Error \<and>
                   (gorType i \<noteq> Tool \<or> \<not> isl (decode_tool_call env (item_content i))))
              items"


text \<open>
  The items of the model call a round starts with; the assistant message of a tool-call round
  of the base orchestrator, with the calls recorded in it; the number of polls of a round that
  runs undisturbed (one per item, one before the tools, one per tool).
\<close>

definition round_items :: "env \<Rightarrow> state \<Rightarrow> MsgReturn list" where
  "round_items env s = model_chat env (chats s) (messages s)"

definition base_assistant_message :: "tool_call list \<Rightarrow> message" where
  "base_assistant_message recorded =
     \<lparr>role = ''assistant'', content = Text [], tool_calls = Some recorded, tool_call_id = None,
      reasoning_content = None\<rparr>"


text \<open>
  The messages a tool-call round of the base orchestrator adds to a history: one assistant
  message whose content is the empty text, then \<open>role="tool"\<close> messages only.
\<close>

definition tool_branch_history :: "message list \<Rightarrow> message list \<Rightarrow> bool" where
  "tool_branch_history before after =
     (take (length before) after = before \<and>
      (case drop (length before) after of
         [] \<Rightarrow> False
       | a # tms \<Rightarrow> role a = ''assistant'' \<and> content a = Text [] \<and>
                    list_all (\<lambda>m. role m = ''tool'') tms))"

text \<open>
  The Minimax round in the words of the specification: every argument text is JSON for
  \<open>json.loads\<close>; the block array of the round; the \<open>tool_result\<close> block of a call.
\<close>

definition arguments_are_json :: "env \<Rightarrow> tool_call list \<Rightarrow> bool" where
  "arguments_are_json env tools =
     list_all (\<lambda>t. \<not> isl (json_loads env (call_arguments t))) tools"

definition tool_use_block :: "env \<Rightarrow> tool_call \<Rightarrow> block" where
  "tool_use_block env t =
     ToolUseBlock (call_id t) (call_name t)
       (case json_loads env (call_arguments t) of Inl e \<Rightarrow> JNull | Inr j \<Rightarrow> j)"

definition round_blocks :: "env \<Rightarrow> round_vars \<Rightarrow> block list" where
  "round_blocks env v =
     (if reasoning v \<noteq> [] then [ThinkingBlock (reasoning v)] else [])
     @ (if answer_content v \<noteq> [] then [TextBlock (answer_content v)] else [])
     @ map (tool_use_block env) (tool_info v)"

definition tool_result_block :: "env \<Rightarrow> tool_call \<Rightarrow> block" where
  "tool_result_block env t = ToolResultBlock (call_id t) (tool_result_text env t)"










text \<open>
  A terminal item, and the shape of the item sequence of one invocation: exactly one terminal
  item, in last place.
\<close>

definition is_terminal :: "MsgReturn \<Rightarrow> bool" where
  "is_terminal m = (gorType m = End \<or> gorType m = Error)"

definition one_terminal_last :: "MsgReturn list \<Rightarrow> bool" where
  "one_terminal_last items =
     (items \<noteq> [] \<and> length (filter is_terminal items) = 1 \<and> is_terminal (last items))"

section \<open>Concrete runs\<close>

definition user_msg :: message where
  "user_msg =
     \<lparr>role = ''user'', content = Text ''What is 1+2?'', tool_calls = None, tool_call_id = None,
      reasoning_content = None\<rparr>"

definition tc_add :: tool_call where
  "tc_add = \<lparr>call_id = ''call_1'', call_name = ''add'',
            call_arguments = ''{'' @ [CHR 0x22] @ ''a'' @ [CHR 0x22] @ '': 1}''\<rparr>"

definition tc_bad :: tool_call where
  "tc_bad = \<lparr>call_id = ''call_2'', call_name = ''add'', call_arguments = ''{bad''\<rparr>"

definition tc_boom :: tool_call where
  "tc_boom = \<lparr>call_id = ''call_3'', call_name = ''boom'', call_arguments = ''{}''\<rparr>"

text \<open>An executor with one tool, and a decoder for three tool-call texts.\<close>

definition example_executor :: "string \<Rightarrow> json \<Rightarrow> pyexn + string" where
  "example_executor tname args =
     (if tname = ''add'' then Inr ''3'' else Inl (PyExn OtherError ''no such tool''))"

definition example_decode :: "string \<Rightarrow> pyexn + tool_call" where
  "example_decode text =
     (if text = ''add'' then Inr tc_add
      else if text = ''bad'' then Inr tc_bad
      else if text = ''boom'' then Inr tc_boom
      else Inl (PyExn JSONDecodeError ''Expecting value''))"

text \<open>
  A model that answers its first call with the items \<open>first\<close> and every later call with the
  answer \<open>3\<close>, and an interrupt predicate that is true from its \<open>n\<close>-th poll on.
\<close>

definition example_env :: "MsgReturn list \<Rightarrow> (nat \<Rightarrow> bool) \<Rightarrow> env" where
  "example_env first intr =
     \<lparr>model_chat = (\<lambda>n ms. if n = 0 then first else [msg Answer ''3'', msg End []]),
      decode_tool_call = example_decode,
      json_loads = strict_loads,
      execute_tool = example_executor,
      interrupt_check = intr\<rparr>"

definition never :: "nat \<Rightarrow> bool" where
  "never k = False"

definition from_poll :: "nat \<Rightarrow> nat \<Rightarrow> bool" where
  "from_poll n k = (n \<le> k)"


definition answer_then_tool :: "MsgReturn list" where
  "answer_then_tool = [msg Think ''hm'', msg Answer ''I will add.'', msg Tool ''add'', msg End []]"

definition repeat_answer :: "MsgReturn list" where
  "repeat_answer = [msg Answer ''3'', msg End []]"

definition one_tool :: "MsgReturn list" where
  "one_tool = [msg Tool ''add'', msg End []]"

definition bad_tool :: "MsgReturn list" where
  "bad_tool = [msg Tool ''bad'', msg End []]"

definition think_then_answer :: "MsgReturn list" where
  "think_then_answer = [msg Think ''2 and 1 make 3'', msg Answer ''3'', msg End []]"

definition two_tools :: "MsgReturn list" where
  "two_tools = [msg Think ''hm'', msg Answer ''I will add.'', msg Tool ''add'', msg Tool ''boom'',
                msg End []]"




text \<open>A stream that gives one content chunk and then raises, and a whole Anthropic response.\<close>

definition broken_stream :: "chunk transport" where
  "broken_stream =
     Chunks [[\<lparr>delta_reasoning_content = None, delta_content = Some ''hi'',
               delta_tool_calls = None\<rparr>]]
            (Some (PyExn OtherError ''connection lost''))"

definition whole_response :: "pyexn + response_block list" where
  "whole_response = Inr [ResponseThinking ''hm'', ResponseText ''3'', ResponseToolUse ''t1'' ''add'' (JObj [])]"

section \<open>Properties of the argument parser\<close>










section \<open>Properties of the base orchestrator\<close>

lemma yield_simps [simp]:
  "out (yield e s) = out s @ [e]" "messages (yield e s) = messages s"
  "polls (yield e s) = polls s" "calls (yield e s) = calls s" "chats (yield e s) = chats s"
  by (simp_all add: yield_def)

lemma append_message_simps [simp]:
  "out (append_message m s) = out s" "messages (append_message m s) = messages s @ [m]"
  "polls (append_message m s) = polls s" "calls (append_message m s) = calls s"
  "chats (append_message m s) = chats s"
  by (simp_all add: append_message_def)

lemma poll_simps [simp]:
  "out (poll s) = out s" "messages (poll s) = messages s"
  "polls (poll s) = Suc (polls s)" "calls (poll s) = calls s" "chats (poll s) = chats s"
  by (simp_all add: poll_def)

lemma no_interrupt_0 [simp]: "no_interrupt env k 0"
  by (simp add: no_interrupt_def)

lemma no_interrupt_iff: "no_interrupt env k n = (\<forall>i<n. \<not> interrupt_check env (k + i))"
  by (auto simp: no_interrupt_def list_all_iff)

lemma no_interrupt_Suc:
  "no_interrupt env k (Suc n) = (\<not> interrupt_check env k \<and> no_interrupt env (Suc k) n)"
  by (simp add: no_interrupt_iff All_less_Suc2)

lemma no_interrupt_add:
  "no_interrupt env k (m + n) = (no_interrupt env k m \<and> no_interrupt env (k + m) n)"
  by (induction m arbitrary: k) (simp_all add: no_interrupt_Suc)

lemma process_items_run:
  "clean_items env items \<Longrightarrow> no_interrupt env (polls s) (length items) \<Longrightarrow>
   process_items env items v s =
     (Next,
      v\<lparr>reasoning := reasoning v @ items_text Think items,
        answer_content := answer_content v @ items_text Answer items,
        tool_info := tool_info v @ decoded_tools env items\<rparr>,
      s\<lparr>polls := polls s + length items, out := out s @ concat (map item_events items)\<rparr>)"
proof (induction items arbitrary: v s)
  case Nil
  then show ?case by (simp add: items_text_def decoded_tools_def)
next
  case (Cons item items)
  from Cons.prems have ni: "\<not> interrupt_check env (polls s)"
    and rest: "no_interrupt env (Suc (polls s)) (length items)"
    by (simp_all add: no_interrupt_Suc)
  from Cons.prems have ci: "clean_items env items" and ne: "gorType item \<noteq> Error"
    and dec: "gorType item = Tool \<Longrightarrow> \<not> isl (decode_tool_call env (item_content item))"
    by (auto simp: clean_items_def)
  show ?case
  proof (cases "gorType item")
    case Think
    with ni ci rest Cons.IH show ?thesis
      by (simp add: items_text_def decoded_tools_def item_events_def yield_def poll_def)
  next
    case Answer
    with ni ci rest Cons.IH show ?thesis
      by (simp add: items_text_def decoded_tools_def item_events_def yield_def poll_def)
  next
    case Tool
    with dec obtain tc where "decode_tool_call env (item_content item) = Inr tc"
      by (cases "decode_tool_call env (item_content item)") auto
    with Tool ni ci rest Cons.IH show ?thesis
      by (simp add: items_text_def decoded_tools_def item_events_def yield_def poll_def)
  next
    case End
    with ni ci rest Cons.IH show ?thesis
      by (simp add: items_text_def decoded_tools_def item_events_def yield_def poll_def)
  next
    case Error
    with ne show ?thesis by simp
  qed
qed

lemma process_items_keeps:
  "process_items env items v s = (fl, v', s') \<Longrightarrow>
   messages s' = messages s \<and> calls s' = calls s \<and> chats s' = chats s"
  by (induction env items v s rule: process_items.induct)
     (auto split: if_splits gor_type.splits sum.splits)


lemma add_tool_call_at:
  "tool_calls a = Some cs \<Longrightarrow>
   add_tool_call (length ms0) t (ms0 @ a # tms) = ms0 @ a\<lparr>tool_calls := Some (cs @ [t])\<rparr> # tms"
  by (simp add: add_tool_call_def nth_append list_update_append)








lemma example_env_simps [simp]:
  "model_chat (example_env first intr) 0 ms = first"
  "decode_tool_call (example_env first intr) = example_decode"
  "json_loads (example_env first intr) = strict_loads"
  "execute_tool (example_env first intr) = example_executor"
  "interrupt_check (example_env first intr) = intr"
  by (simp_all add: example_env_def)


lemma no_interrupt_never: "interrupt_check env = never \<Longrightarrow> no_interrupt env k n"
  by (simp add: no_interrupt_iff never_def)

lemma parse_examples:
  "try_parse_tool_arguments strict_loads (call_arguments tc_add) = Inr (JObj [(''a'', JInt 1)])"
  "try_parse_tool_arguments strict_loads (call_arguments tc_bad) = Inr JNull"
  "try_parse_tool_arguments strict_loads (call_arguments tc_boom) = Inr (JObj [])"
  by code_simp+

lemma parsed_examples:
  "parsed_arguments (example_env first intr) tc_add = Some (JObj [(''a'', JInt 1)])"
  "parsed_arguments (example_env first intr) tc_bad = None"
  "parsed_arguments (example_env first intr) tc_boom = Some (JObj [])"
  by (simp_all add: parsed_arguments_def parse_examples)

lemma tc_simps [simp]:
  "call_id tc_add = ''call_1''" "call_name tc_add = ''add''"
  "call_id tc_bad = ''call_2''" "call_name tc_bad = ''add''" "call_arguments tc_bad = ''{bad''"
  "call_id tc_boom = ''call_3''" "call_name tc_boom = ''boom''"
  by (simp_all add: tc_add_def tc_bad_def tc_boom_def)





lemma process_items_next:
  "process_items env items v s = (Next, v', s') \<Longrightarrow>
   out s' = out s @ concat (map item_events items)
   \<and> answer_content v' = answer_content v @ items_text Answer items
   \<and> reasoning v' = reasoning v @ items_text Think items
   \<and> polls s' = polls s + length items"
proof (induction env items v s rule: process_items.induct)
  case (1 env v s)
  then show ?case by (simp add: items_text_def)
next
  case (2 env item response v s)
  then show ?case
    by (cases "gorType item")
       (auto simp: items_text_def item_events_def split: if_splits sum.splits)
qed

lemma role_tool_message [simp]: "role (tool_message i x) = ''tool''"
  by (simp add: tool_message_def)

lemma execute_one_tool_shape:
  assumes "messages s = ms0 @ a # tms" and "tool_calls a = Some cs"
    and "execute_one_tool env (length ms0) t l s = (fl, l', s')"
  shows "\<exists>cs' extra. messages s' = ms0 @ a\<lparr>tool_calls := Some cs'\<rparr> # tms @ extra
           \<and> list_all (\<lambda>m. role m = ''tool'') extra"
proof -
  let ?P = "\<lambda>ms. \<exists>cs' extra. ms = ms0 @ a\<lparr>tool_calls := Some cs'\<rparr> # tms @ extra
           \<and> list_all (\<lambda>m. role m = ''tool'') extra"
  have a: "a\<lparr>tool_calls := Some cs\<rparr> = a" using assms(2) by simp
  have p0: "?P (messages s)"
    by (rule exI [of _ cs], rule exI [of _ "[]"]) (simp add: assms(1) a)
  have p1: "?P (messages s @ [tool_message i x])" for i x
    by (rule exI [of _ cs], rule exI [of _ "[tool_message i x]"]) (simp add: assms(1) a)
  have p2: "?P (add_tool_call (length ms0) t (messages s) @ [tool_message i x])" for i x
    by (rule exI [of _ "cs @ [t]"], rule exI [of _ "[tool_message i x]"])
       (simp add: assms(1) add_tool_call_at [OF assms(2)])
  have "?P (messages s')"
  proof (cases "try_parse_tool_arguments (json_loads env) (call_arguments t)")
    case (Inl e)
    with assms(3) p0 p1 show ?thesis
      by (cases l) (auto simp: execute_one_tool_def tool_except_def Let_def)
  next
    case (Inr args)
    show ?thesis
    proof (cases "args = JNull")
      case True
      with Inr assms(3) p1 show ?thesis
        by (auto simp: execute_one_tool_def Let_def)
    next
      case False
      with Inr assms(3) p1 p2 show ?thesis
        by (cases "execute_tool env (call_name t) args")
           (auto simp: execute_one_tool_def tool_except_def Let_def)
    qed
  qed
  then show ?thesis .
qed

lemma tools_loop_shape:
  assumes "messages s = ms0 @ a # tms" and "tool_calls a = Some cs"
  shows "\<exists>cs' extra. messages (snd (tools_loop env (length ms0) tools l s))
             = ms0 @ a\<lparr>tool_calls := Some cs'\<rparr> # tms @ extra
           \<and> list_all (\<lambda>m. role m = ''tool'') extra"
  using assms
proof (induction tools arbitrary: s l a tms cs)
  case Nil
  have "a\<lparr>tool_calls := Some cs\<rparr> = a" using Nil(2) by simp
  then show ?case
    by (intro exI [of _ cs] exI [of _ "[]"]) (simp add: Nil(1))
next
  case (Cons t tools)
  show ?case
  proof (cases "interrupt_check env (polls s)")
    case True
    have "a\<lparr>tool_calls := Some cs\<rparr> = a" using Cons.prems(2) by simp
    with True show ?thesis
      by (intro exI [of _ cs] exI [of _ "[]"]) (simp add: Cons.prems(1))
  next
    case False
    obtain fl l' s' where step: "execute_one_tool env (length ms0) t l (poll s) = (fl, l', s')"
      by (cases "execute_one_tool env (length ms0) t l (poll s)") auto
    have m: "messages (poll s) = ms0 @ a # tms" using Cons.prems(1) by simp
    from execute_one_tool_shape [OF m Cons.prems(2) step] obtain cs' extra where
      m': "messages s' = ms0 @ a\<lparr>tool_calls := Some cs'\<rparr> # tms @ extra"
      and e: "list_all (\<lambda>m. role m = ''tool'') extra" by blast
    show ?thesis
    proof (cases fl)
      case Next
      have c': "tool_calls (a\<lparr>tool_calls := Some cs'\<rparr>) = Some cs'" by simp
      have m'': "messages s' = ms0 @ a\<lparr>tool_calls := Some cs'\<rparr> # (tms @ extra)"
        using m' by simp
      from Cons.IH [OF m'' c', of l'] obtain cs'' extra' where
        r: "messages (snd (tools_loop env (length ms0) tools l' s'))
             = ms0 @ a\<lparr>tool_calls := Some cs''\<rparr> # (tms @ extra) @ extra'"
        and e': "list_all (\<lambda>m. role m = ''tool'') extra'"
        by auto
      have "tools_loop env (length ms0) (t # tools) l s = tools_loop env (length ms0) tools l' s'"
        using False step Next by simp
      with r e e' show ?thesis
        by (intro exI [of _ cs''] exI [of _ "extra @ extra'"]) simp
    next
      case Return
      with False step m' e show ?thesis
        by (intro exI [of _ cs'] exI [of _ extra]) simp
    next
      case (Raise x)
      with False step m' e show ?thesis
        by (intro exI [of _ cs'] exI [of _ extra]) simp
    qed
  qed
qed

lemma execute_tools_in_loop_shape:
  "tool_branch_history (messages s) (messages (snd (execute_tools_in_loop env tools s)))"
proof -
  let ?a = "base_assistant_message []"
  let ?s2 = "yield (SseToolCalls tools) (append_message ?a s)"
  have m: "messages ?s2 = messages s @ ?a # []" by simp
  have c: "tool_calls ?a = Some []" by (simp add: base_assistant_message_def)
  from tools_loop_shape [OF m c, of env tools None] obtain cs' extra where
    r: "messages (snd (tools_loop env (length (messages s)) tools None ?s2))
          = messages s @ ?a\<lparr>tool_calls := Some cs'\<rparr> # [] @ extra"
    and e: "list_all (\<lambda>m. role m = ''tool'') extra" by blast
  have "execute_tools_in_loop env tools s = tools_loop env (length (messages s)) tools None ?s2"
    by (simp add: execute_tools_in_loop_def base_assistant_message_def Let_def)
  with r e show ?thesis
    by (simp add: tool_branch_history_def base_assistant_message_def)
qed

lemma execute_one_tool_out:
  "execute_one_tool env ai t l s = (fl, l', s') \<Longrightarrow> \<exists>rest. out s' = out s @ rest"
  by (auto simp: execute_one_tool_def tool_except_def Let_def
      split: sum.splits if_splits option.splits)

lemma tools_loop_out: "\<exists>rest. out (snd (tools_loop env ai tools l s)) = out s @ rest"
proof (induction tools arbitrary: l s)
  case Nil
  show ?case by simp
next
  case (Cons t tools)
  show ?case
  proof (cases "interrupt_check env (polls s)")
    case True
    then show ?thesis by simp
  next
    case False
    obtain fl l' s' where step: "execute_one_tool env ai t l (poll s) = (fl, l', s')"
      by (cases "execute_one_tool env ai t l (poll s)") auto
    from execute_one_tool_out [OF step] obtain r1 where r1: "out s' = out s @ r1" by auto
    from Cons.IH [of l' s'] obtain r2 where
      r2: "out (snd (tools_loop env ai tools l' s')) = out s' @ r2" by blast
    from False step r1 r2 show ?thesis by (cases fl) simp_all
  qed
qed

lemma execute_tools_in_loop_out:
  "\<exists>rest. out (snd (execute_tools_in_loop env tools s)) = out s @ rest"
proof -
  from tools_loop_out [of env "length (messages s)" tools None
      "yield (SseToolCalls tools) (append_message (base_assistant_message []) s)"]
  show ?thesis
    by (auto simp: execute_tools_in_loop_def base_assistant_message_def Let_def)
qed

text \<open>
  Claim C10.  In a round of the base orchestrator that reaches its tool-call branch (the items
  of the model call were all processed, at least one tool call was accumulated and the poll
  before the tools is negative), whatever the tools and later polls do: the events of the
  items, among them one \<open>answer\<close> event per answer item, have been emitted; the answer text
  accumulated from them is not persisted, for the messages the round adds to the history are
  one assistant message with the empty text as content, followed by \<open>role="tool"\<close> messages
  only.
\<close>

theorem tool_round_persists_empty_content:
  assumes "process_items env (round_items env s) empty_vars (s\<lparr>chats := Suc (chats s)\<rparr>)
             = (Next, v, s1)"
    and "tool_info v \<noteq> []" and "\<not> interrupt_check env (polls s1)"
  shows "\<exists>fl s'. chat_round env s = (fl, v, s')
      \<and> tool_branch_history (messages s) (messages s')
      \<and> answer_content v = items_text Answer (round_items env s)
      \<and> (\<exists>rest. out s' = out s @ concat (map item_events (round_items env s)) @ rest)"
proof -
  obtain fl2 s2 where run: "execute_tools_in_loop env (tool_info v) (poll s1) = (fl2, s2)"
    by (cases "execute_tools_in_loop env (tool_info v) (poll s1)") auto
  let ?fl = "case fl2 of Raise e \<Rightarrow> Raise e | _ \<Rightarrow> Next"
  have r: "chat_round env s = (?fl, v, s2)"
    using assms run
    by (cases fl2) (simp_all add: chat_round_def round_items_def [symmetric] Let_def)
  from process_items_keeps [OF assms(1)] have m1: "messages s1 = messages s" by simp
  from process_items_next [OF assms(1)]
  have o1: "out s1 = out s @ concat (map item_events (round_items env s))"
    and a1: "answer_content v = items_text Answer (round_items env s)"
    by (simp_all add: empty_vars_def)
  from execute_tools_in_loop_shape [of "poll s1" env "tool_info v"] run m1
  have h: "tool_branch_history (messages s) (messages s2)" by simp
  from execute_tools_in_loop_out [of env "tool_info v" "poll s1"] run o1
  have o2: "\<exists>rest. out s2 = out s @ concat (map item_events (round_items env s)) @ rest"
    by auto
  from r h a1 o2 show ?thesis by blast
qed

lemma answer_then_tool_items:
  "round_items (example_env answer_then_tool intr) (initial_state ms) = answer_then_tool"
  by (simp add: round_items_def initial_state_def)

theorem tool_round_persists_empty_content_witness:
  "\<exists>fl v s'. chat_round (example_env answer_then_tool never) (initial_state [user_msg]) = (fl, v, s')
     \<and> tool_branch_history [user_msg] (messages s')
     \<and> answer_content v = ''I will add.''
     \<and> (\<exists>rest. out s' = [SseThinking ''hm'', SseAnswer ''I will add.''] @ rest)"
proof -
  let ?E = "example_env answer_then_tool never"
  let ?S = "initial_state [user_msg]"
  let ?T = "?S\<lparr>chats := Suc (chats ?S)\<rparr>"
  have c: "clean_items ?E answer_then_tool"
    by (simp add: clean_items_def answer_then_tool_def msg_def example_decode_def)
  have n: "no_interrupt ?E (polls ?T) (length answer_then_tool)"
    by (rule no_interrupt_never) simp
  let ?v = "empty_vars\<lparr>reasoning := reasoning empty_vars @ items_text Think answer_then_tool,
        answer_content := answer_content empty_vars @ items_text Answer answer_then_tool,
        tool_info := tool_info empty_vars @ decoded_tools ?E answer_then_tool\<rparr>"
  let ?U = "?T\<lparr>polls := polls ?T + length answer_then_tool,
                 out := out ?T @ concat (map item_events answer_then_tool)\<rparr>"
  have h1: "process_items ?E (round_items ?E ?S) empty_vars ?T = (Next, ?v, ?U)"
    using process_items_run [OF c n, of empty_vars] by (simp add: answer_then_tool_items)
  have h2: "tool_info ?v \<noteq> []"
    by (simp add: empty_vars_def decoded_tools_def answer_then_tool_def msg_def example_decode_def)
  have h3: "\<not> interrupt_check ?E (polls ?U)"
    by (simp add: never_def)
  from tool_round_persists_empty_content [OF h1 h2 h3] obtain fl s' where
    r: "chat_round ?E ?S = (fl, ?v, s')"
    and h: "tool_branch_history (messages ?S) (messages s')"
    and o: "\<exists>rest. out s' = out ?S @ concat (map item_events (round_items ?E ?S)) @ rest"
    by blast
  have h': "tool_branch_history [user_msg] (messages s')"
    using h by (simp add: initial_state_def)
  have a: "answer_content ?v = ''I will add.''"
    by (simp add: empty_vars_def items_text_def answer_then_tool_def msg_def)
  have o': "\<exists>rest. out s' = [SseThinking ''hm'', SseAnswer ''I will add.''] @ rest"
    using o [unfolded answer_then_tool_items]
    by (simp add: initial_state_def answer_then_tool_def msg_def item_events_def)
  from r h' a o' show ?thesis by blast
qed

lemma chat_round_final:
  assumes "process_items env (round_items env s) empty_vars (s\<lparr>chats := Suc (chats s)\<rparr>)
             = (Next, v, s1)"
    and "tool_info v = []" and "answer_content v \<noteq> []"
  shows "chat_round env s = (Next, v, append_message (assistant_text (answer_content v)) s1)"
    and "messages s1 = messages s"
  using assms process_items_keeps [OF assms(1)]
  by (simp_all add: chat_round_def round_items_def [symmetric] Let_def)

lemma chat_round_next:
  assumes "chat_round env s = (Next, v, s')" and "tool_info v = []" and "answer_content v \<noteq> []"
  shows "messages s' = messages s @ [assistant_text (answer_content v)]"
proof -
  obtain fl1 v1 s1 where
    p: "process_items env (round_items env s) empty_vars (s\<lparr>chats := Suc (chats s)\<rparr>)
          = (fl1, v1, s1)"
    by (cases "process_items env (round_items env s) empty_vars (s\<lparr>chats := Suc (chats s)\<rparr>)")
       auto
  from assms(1) p have fl1: "fl1 = Next" and v1: "v1 = v"
    by (cases fl1; auto simp: chat_round_def round_items_def [symmetric] Let_def
        split: if_splits prod.splits flow.splits)+
  from chat_round_final [OF p [unfolded fl1 v1] assms(2,3)] assms(1) show ?thesis
    by auto
qed

lemma chat_loop_exit:
  "chat_loop chat_round fuel env first v0 s0 = Some (Next, v, s) \<Longrightarrow> first \<or> tool_info v0 \<noteq> [] \<Longrightarrow>
   tool_info v = [] \<and> (answer_content v \<noteq> [] \<longrightarrow> already_answered (messages s) (answer_content v))"
proof (induction fuel arbitrary: first v0 s0)
  case 0
  then show ?case by (auto split: if_splits)
next
  case (Suc n)
  obtain fl1 v1 s1 where r: "chat_round env s0 = (fl1, v1, s1)"
    by (cases "chat_round env s0") auto
  from Suc.prems r have fl1: "fl1 = Next"
    by (cases fl1) (auto split: if_splits)
  from Suc.prems r fl1 have rest: "chat_loop chat_round n env False v1 s1 = Some (Next, v, s)"
    by (auto split: if_splits)
  show ?case
  proof (cases "tool_info v1 = []")
    case False
    with Suc.IH [OF rest] show ?thesis by simp
  next
    case True
    with rest have e: "v = v1" "s = s1"
      by (cases n; simp)+
    show ?thesis
    proof (cases "answer_content v1 = []")
      case True
      with e \<open>tool_info v1 = []\<close> show ?thesis by simp
    next
      case False
      from chat_round_next [OF r [unfolded fl1] True False] e True False show ?thesis
        by (simp add: already_answered_def assistant_text_def)
    qed
  qed
qed

lemma end_of_loop_guard_never_appends:
  assumes "chat_loop chat_round fuel env True v0 s0 = Some (Next, v, s)"
  shows "finish v s = yield SseEnd s"
  using chat_loop_exit [OF assms] by (auto simp: finish_def Let_def)

lemma single_round_invocation:
  assumes "process_items env (round_items env (initial_state ms)) empty_vars
             ((initial_state ms)\<lparr>chats := Suc (chats (initial_state ms))\<rparr>) = (Next, v, s1)"
    and "tool_info v = []" and "answer_content v \<noteq> []"
  shows "\<exists>r. chatToNextLoop (Suc n) env ms = Some r
      \<and> messages r = ms @ [assistant_text (answer_content v)]
      \<and> out r = out s1 @ [SseEnd]"
proof -
  let ?s' = "append_message (assistant_text (answer_content v)) s1"
  from chat_round_final [OF assms]
  have r: "chat_round env (initial_state ms) = (Next, v, ?s')"
    and m: "messages s1 = messages (initial_state ms)" by simp_all
  have l: "chat_loop chat_round (Suc n) env True empty_vars (initial_state ms) = Some (Next, v, ?s')"
    using r assms(2) by (cases n) simp_all
  from end_of_loop_guard_never_appends [OF l] have f: "finish v ?s' = yield SseEnd ?s'" .
  have "chatToNextLoop (Suc n) env ms = Some (yield SseEnd ?s')"
    using l f by (simp add: chatToNextLoop_def close_generator_def)
  then show ?thesis
    using m by (simp add: initial_state_def)
qed

text \<open>
  Claim C9, as amended.  In the base loop, every round whose items were all processed and that
  yields no tool call and a non-empty answer text appends one assistant message with that
  text, whatever the history was (the append in the round has no check); in every invocation
  in which the loop ends normally, the check after the loop finds that message and appends
  nothing; so an invocation whose first round is of that kind ends normally and extends the
  history it was given by exactly one assistant message with the answer text.
\<close>

theorem final_answer_appended_once:
  "(process_items env (round_items env s) empty_vars (s\<lparr>chats := Suc (chats s)\<rparr>) = (Next, v, s1)
      \<and> tool_info v = [] \<and> answer_content v \<noteq> [] \<longrightarrow>
    chat_round env s = (Next, v, append_message (assistant_text (answer_content v)) s1)
      \<and> messages s1 = messages s)
 \<and> (chat_loop chat_round fuel env True v0 s0 = Some (Next, v', s') \<longrightarrow>
      finish v' s' = yield SseEnd s')
 \<and> (process_items env (round_items env (initial_state ms)) empty_vars
        ((initial_state ms)\<lparr>chats := Suc (chats (initial_state ms))\<rparr>) = (Next, w, t1)
      \<and> tool_info w = [] \<and> answer_content w \<noteq> [] \<longrightarrow>
    (\<exists>r. chatToNextLoop (Suc n) env ms = Some r
        \<and> messages r = ms @ [assistant_text (answer_content w)]
        \<and> out r = out t1 @ [SseEnd]))"
  using chat_round_final end_of_loop_guard_never_appends single_round_invocation
  by blast

lemma repeat_answer_items:
  "round_items (example_env repeat_answer intr) (initial_state ms) = repeat_answer"
  by (simp add: round_items_def initial_state_def)

theorem final_answer_appended_once_witness:
  "(\<exists>r. chatToNextLoop 1 (example_env repeat_answer never) [user_msg] = Some r
      \<and> messages r = [user_msg, assistant_text ''3'']
      \<and> out r = [SseAnswer ''3'', SseEnd])
 \<and> (\<exists>v s. chat_loop chat_round 1 (example_env repeat_answer never) True empty_vars
              (initial_state [user_msg]) = Some (Next, v, s)
      \<and> messages s = [user_msg, assistant_text ''3'']
      \<and> finish v s = yield SseEnd s)"
proof -
  let ?E = "example_env repeat_answer never"
  let ?S = "initial_state [user_msg]"
  let ?T = "?S\<lparr>chats := Suc (chats ?S)\<rparr>"
  have c: "clean_items ?E repeat_answer"
    by (simp add: clean_items_def repeat_answer_def msg_def)
  have n: "no_interrupt ?E (polls ?T) (length repeat_answer)"
    by (rule no_interrupt_never) simp
  let ?v = "empty_vars\<lparr>reasoning := reasoning empty_vars @ items_text Think repeat_answer,
        answer_content := answer_content empty_vars @ items_text Answer repeat_answer,
        tool_info := tool_info empty_vars @ decoded_tools ?E repeat_answer\<rparr>"
  let ?U = "?T\<lparr>polls := polls ?T + length repeat_answer,
                 out := out ?T @ concat (map item_events repeat_answer)\<rparr>"
  let ?R = "append_message (assistant_text (answer_content ?v)) ?U"
  have h1: "process_items ?E (round_items ?E ?S) empty_vars ?T = (Next, ?v, ?U)"
    using process_items_run [OF c n, of empty_vars] by (simp add: repeat_answer_items)
  have h2: "tool_info ?v = []"
    by (simp add: empty_vars_def decoded_tools_def repeat_answer_def msg_def)
  have a: "answer_content ?v = ''3''"
    by (simp add: empty_vars_def items_text_def repeat_answer_def msg_def)
  then have h3: "answer_content ?v \<noteq> []" by simp
  note inst = final_answer_appended_once [of ?E ?S ?v ?U 1 empty_vars ?S ?v ?R "[user_msg]" ?v ?U 0]
  from inst h1 h2 h3 have round: "chat_round ?E ?S = (Next, ?v, ?R)"
    by blast
  then have loop: "chat_loop chat_round 1 ?E True empty_vars ?S = Some (Next, ?v, ?R)"
    using h2 by simp
  with inst have fin: "finish ?v ?R = yield SseEnd ?R"
    by blast
  have mR: "messages ?R = [user_msg, assistant_text ''3'']"
    using a by (simp add: initial_state_def)
  from inst h1 h2 h3 obtain r where
    "chatToNextLoop 1 ?E [user_msg] = Some r"
    and "messages r = [user_msg] @ [assistant_text (answer_content ?v)]"
    and "out r = out ?U @ [SseEnd]"
    by auto
  then have first: "\<exists>r. chatToNextLoop 1 ?E [user_msg] = Some r
      \<and> messages r = [user_msg, assistant_text ''3'']
      \<and> out r = [SseAnswer ''3'', SseEnd]"
    using a by (simp add: initial_state_def repeat_answer_def msg_def item_events_def)
  from first loop mR fin show ?thesis by blast
qed

text \<open>
  The claim as stated fails: invoked on a history that already ends with the assistant answer
  \<open>3\<close>, with a model that answers \<open>3\<close> again, the loop appends a second copy.
\<close>

theorem reinvocation_appends_duplicate:
  "map_option messages
     (chatToNextLoop 1 (example_env repeat_answer never) [user_msg, assistant_text ''3''])
   = Some [user_msg, assistant_text ''3'', assistant_text ''3'']"
  by code_simp

text \<open>
  Claim C5 on a concrete run.  The model asks for one tool; the interrupt predicate is false at
  the polls before the two items and before the tools, and true from the poll before the
  first tool on.  The \<open>return\<close> in \<open>_execute_tools_in_loop\<close> only ends that generator: the
  \<open>while\<close> loop of \<open>chatToNextLoop\<close> goes on, calls the model a second time and emits a
  second \<open>interrupted\<close> event at the first item of that call.
\<close>

theorem interrupt_in_tool_loop_run:
  "map_option out (chatToNextLoop 2 (example_env one_tool (from_poll 3)) [user_msg])
     = Some [SseToolCalls [tc_add], SseInterrupted, SseInterrupted]
   \<and> map_option chats (chatToNextLoop 2 (example_env one_tool (from_poll 3)) [user_msg]) = Some 2"
  by code_simp

text \<open>
  Claim C8 on a concrete run.  The model asks for one tool with the malformed arguments
  \<open>{bad\<close>: the history gets a \<open>role="tool"\<close> message for \<open>call_2\<close>, while the assistant
  message of the round lists no tool call at all.
\<close>

theorem failed_call_not_listed_run:
  "map_option messages (chatToNextLoop 2 (example_env bad_tool never) [user_msg])
     = Some [user_msg, base_assistant_message [],
             tool_message ''call_2'' (args_error_prefix @ ''{bad''), assistant_text ''3'']"
  by code_simp

section \<open>Properties of the DeepSeek orchestrator\<close>

lemma deepseek_execute_one_tool_shape:
  "deepseek_execute_one_tool env t l s = (fl, l', s') \<Longrightarrow>
   \<exists>extra. messages s' = messages s @ extra \<and> list_all (\<lambda>m. role m = ''tool'') extra"
  by (auto simp: deepseek_execute_one_tool_def tool_except_def Let_def
      split: sum.splits if_splits option.splits)

lemma deepseek_tools_loop_shape:
  "\<exists>extra. messages (snd (deepseek_tools_loop env tools l s)) = messages s @ extra
      \<and> list_all (\<lambda>m. role m = ''tool'') extra"
proof (induction tools arbitrary: l s)
  case Nil
  show ?case by simp
next
  case (Cons t tools)
  show ?case
  proof (cases "interrupt_check env (polls s)")
    case True
    then show ?thesis by simp
  next
    case False
    obtain fl l' s' where step: "deepseek_execute_one_tool env t l (poll s) = (fl, l', s')"
      by (cases "deepseek_execute_one_tool env t l (poll s)") auto
    from deepseek_execute_one_tool_shape [OF step] obtain e1 where
      e1: "messages s' = messages s @ e1" "list_all (\<lambda>m. role m = ''tool'') e1" by auto
    from Cons.IH [of l' s'] obtain e2 where
      e2: "messages (snd (deepseek_tools_loop env tools l' s')) = messages s' @ e2"
        "list_all (\<lambda>m. role m = ''tool'') e2" by blast
    show ?thesis
    proof (cases fl)
      case Next
      with False step e1 e2 show ?thesis
        by (intro exI [of _ "e1 @ e2"]) simp
    next
      case Return
      with False step e1 show ?thesis by (intro exI [of _ e1]) simp
    next
      case (Raise x)
      with False step e1 show ?thesis by (intro exI [of _ e1]) simp
    qed
  qed
qed

text \<open>
  Claim C6.  In a round of the DeepSeek orchestrator whose items were all processed: with no
  tool call, the round ends normally and the history grows by nothing when the answer text is
  empty and otherwise by one assistant message whose content is the answer text and which has
  no \<open>reasoning_content\<close> key; with one or more tool calls and a negative poll before the
  tools, the history grows by one assistant message that has the key \<open>reasoning_content\<close>,
  holding the accumulated reasoning text whatever it is (the empty text included), followed by
  \<open>role="tool"\<close> messages only.
\<close>

theorem deepseek_history_policy:
  assumes "process_items env (round_items env s) empty_vars (s\<lparr>chats := Suc (chats s)\<rparr>)
             = (Next, v, s1)"
  shows "(tool_info v = [] \<longrightarrow>
            (\<exists>s'. deepseek_round env s = (Next, v, s')
               \<and> messages s' = messages s
                    @ (if answer_content v \<noteq> [] then [assistant_text (answer_content v)] else []))
            \<and> content (assistant_text (answer_content v)) = Text (answer_content v)
            \<and> reasoning_content (assistant_text (answer_content v)) = None)
       \<and> (tool_info v \<noteq> [] \<and> \<not> interrupt_check env (polls s1) \<longrightarrow>
            (\<exists>fl s' a tms. deepseek_round env s = (fl, v, s')
               \<and> messages s' = messages s @ a # tms
               \<and> role a = ''assistant''
               \<and> content a = Text (answer_content v)
               \<and> tool_calls a = Some (tool_info v)
               \<and> reasoning_content a = Some (reasoning v)
               \<and> list_all (\<lambda>m. role m = ''tool'') tms))"
proof (intro conjI impI)
  assume t: "tool_info v = []"
  from process_items_keeps [OF assms] have m1: "messages s1 = messages s" by simp
  show "\<exists>s'. deepseek_round env s = (Next, v, s')
               \<and> messages s' = messages s
                    @ (if answer_content v \<noteq> [] then [assistant_text (answer_content v)] else [])"
    using assms t m1
    by (simp add: deepseek_round_def round_items_def [symmetric] Let_def)
  show "content (assistant_text (answer_content v)) = Text (answer_content v)"
    by (simp add: assistant_text_def)
  show "reasoning_content (assistant_text (answer_content v)) = None"
    by (simp add: assistant_text_def)
next
  assume h: "tool_info v \<noteq> [] \<and> \<not> interrupt_check env (polls s1)"
  from process_items_keeps [OF assms] have m1: "messages s1 = messages s" by simp
  let ?a = "deepseek_assistant_message (answer_content v) (reasoning v) (tool_info v)"
  let ?s = "yield (SseToolCalls (tool_info v)) (append_message ?a (poll s1))"
  obtain fl2 s2 where run: "deepseek_tools_loop env (tool_info v) None ?s = (fl2, s2)"
    by (cases "deepseek_tools_loop env (tool_info v) None ?s") auto
  from deepseek_tools_loop_shape [of env "tool_info v" None ?s] run obtain tms where
    m2: "messages s2 = messages s @ ?a # tms" and tl: "list_all (\<lambda>m. role m = ''tool'') tms"
    using m1 by auto
  let ?fl = "case fl2 of Raise e \<Rightarrow> Raise e | _ \<Rightarrow> Next"
  have r: "deepseek_round env s = (?fl, v, s2)"
    using assms h run
    by (cases fl2)
       (simp_all add: deepseek_round_def execute_tools_in_loop_deepseek_def
          round_items_def [symmetric] Let_def)
  have "role ?a = ''assistant''" "content ?a = Text (answer_content v)"
    "tool_calls ?a = Some (tool_info v)" "reasoning_content ?a = Some (reasoning v)"
    by (simp_all add: deepseek_assistant_message_def)
  with r m2 tl
  show "\<exists>fl s' a tms. deepseek_round env s = (fl, v, s')
               \<and> messages s' = messages s @ a # tms
               \<and> role a = ''assistant''
               \<and> content a = Text (answer_content v)
               \<and> tool_calls a = Some (tool_info v)
               \<and> reasoning_content a = Some (reasoning v)
               \<and> list_all (\<lambda>m. role m = ''tool'') tms"
    by blast
qed

text \<open>
  Two rounds: one with reasoning text and an answer and no tool call, and one with a tool
  call and no reasoning text at all.
\<close>

theorem deepseek_history_policy_witness:
  "(\<exists>v s'. deepseek_round (example_env think_then_answer never) (initial_state [user_msg])
              = (Next, v, s')
        \<and> reasoning v = ''2 and 1 make 3''
        \<and> messages s' = [user_msg, assistant_text ''3''])
 \<and> (\<exists>fl v s' a tms. deepseek_round (example_env one_tool never) (initial_state [user_msg])
              = (fl, v, s')
        \<and> messages s' = user_msg # a # tms
        \<and> role a = ''assistant''
        \<and> reasoning_content a = Some [])"
proof -
  let ?S = "initial_state [user_msg]"
  let ?T = "?S\<lparr>chats := Suc (chats ?S)\<rparr>"
  let ?E = "example_env think_then_answer never"
  have c: "clean_items ?E think_then_answer"
    by (simp add: clean_items_def think_then_answer_def msg_def)
  have n: "no_interrupt ?E (polls ?T) (length think_then_answer)"
    by (rule no_interrupt_never) simp
  let ?v = "empty_vars\<lparr>reasoning := reasoning empty_vars @ items_text Think think_then_answer,
        answer_content := answer_content empty_vars @ items_text Answer think_then_answer,
        tool_info := tool_info empty_vars @ decoded_tools ?E think_then_answer\<rparr>"
  let ?U = "?T\<lparr>polls := polls ?T + length think_then_answer,
                 out := out ?T @ concat (map item_events think_then_answer)\<rparr>"
  have items: "round_items ?E ?S = think_then_answer"
    by (simp add: round_items_def initial_state_def)
  have h1: "process_items ?E (round_items ?E ?S) empty_vars ?T = (Next, ?v, ?U)"
    using process_items_run [OF c n, of empty_vars] by (simp add: items)
  have t: "tool_info ?v = []"
    by (simp add: empty_vars_def decoded_tools_def think_then_answer_def msg_def)
  have a: "answer_content ?v = ''3''" and g: "reasoning ?v = ''2 and 1 make 3''"
    by (simp_all add: empty_vars_def items_text_def think_then_answer_def msg_def)
  from deepseek_history_policy [OF h1] t a obtain s' where
    "deepseek_round ?E ?S = (Next, ?v, s')"
    and "messages s' = messages ?S @ [assistant_text ''3'']"
    by auto
  with g have first: "\<exists>v s'. deepseek_round ?E ?S = (Next, v, s')
        \<and> reasoning v = ''2 and 1 make 3''
        \<and> messages s' = [user_msg, assistant_text ''3'']"
    by (intro exI [of _ ?v] exI [of _ s']) (simp add: initial_state_def)
  let ?F = "example_env one_tool never"
  have c2: "clean_items ?F one_tool"
    by (simp add: clean_items_def one_tool_def msg_def example_decode_def)
  have n2: "no_interrupt ?F (polls ?T) (length one_tool)"
    by (rule no_interrupt_never) simp
  let ?w = "empty_vars\<lparr>reasoning := reasoning empty_vars @ items_text Think one_tool,
        answer_content := answer_content empty_vars @ items_text Answer one_tool,
        tool_info := tool_info empty_vars @ decoded_tools ?F one_tool\<rparr>"
  let ?V = "?T\<lparr>polls := polls ?T + length one_tool,
                 out := out ?T @ concat (map item_events one_tool)\<rparr>"
  have items2: "round_items ?F ?S = one_tool"
    by (simp add: round_items_def initial_state_def)
  have k1: "process_items ?F (round_items ?F ?S) empty_vars ?T = (Next, ?w, ?V)"
    using process_items_run [OF c2 n2, of empty_vars] by (simp add: items2)
  have t2: "tool_info ?w \<noteq> []"
    by (simp add: empty_vars_def decoded_tools_def one_tool_def msg_def example_decode_def)
  have i2: "\<not> interrupt_check ?F (polls ?V)" by (simp add: never_def)
  have g2: "reasoning ?w = []"
    by (simp add: empty_vars_def items_text_def one_tool_def msg_def)
  from deepseek_history_policy [OF k1] t2 i2 obtain fl s' a tms where
    "deepseek_round ?F ?S = (fl, ?w, s')"
    and "messages s' = messages ?S @ a # tms"
    and "role a = ''assistant''"
    and "reasoning_content a = Some (reasoning ?w)"
    by blast
  with g2 have second: "\<exists>fl v s' a tms. deepseek_round ?F ?S = (fl, v, s')
        \<and> messages s' = user_msg # a # tms
        \<and> role a = ''assistant''
        \<and> reasoning_content a = Some []"
    by (intro exI [of _ fl] exI [of _ ?w] exI [of _ s'] exI [of _ a] exI [of _ tms])
       (simp add: initial_state_def)
  from first second show ?thesis by blast
qed

section \<open>Properties of the Minimax orchestrator\<close>

lemma tool_use_blocks_json:
  "arguments_are_json env tools \<Longrightarrow>
   tool_use_blocks (json_loads env) tools = Inr (map (tool_use_block env) tools)"
  by (induction tools)
     (auto simp: arguments_are_json_def tool_use_block_def split: sum.splits)

lemma content_blocks_json:
  "arguments_are_json env (tool_info v) \<Longrightarrow>
   content_blocks (json_loads env) v = Inr (round_blocks env v)"
  by (simp add: content_blocks_def tool_use_blocks_json round_blocks_def)

lemma try_parse_of_json:
  "\<not> isl (loads s) \<Longrightarrow> \<exists>a. try_parse_tool_arguments loads s = Inr a"
  by (cases "loads s") (auto simp: try_parse_tool_arguments_def)

lemma minimax_execute_one_tool_run:
  assumes "\<not> isl (json_loads env (call_arguments t))"
  shows "\<exists>l'. minimax_execute_one_tool env t l rs s =
     (Next, l', rs @ [tool_result_block env t],
      s\<lparr>out := out s @ tool_events env t, calls := calls s @ executor_calls env t\<rparr>)"
proof -
  from try_parse_of_json [of "json_loads env" "call_arguments t"] assms obtain a
    where a: "try_parse_tool_arguments (json_loads env) (call_arguments t) = Inr a" by blast
  show ?thesis
  proof (cases "a = JNull")
    case True
    with a show ?thesis
      by (simp add: minimax_execute_one_tool_def parsed_arguments_def tool_events_def
          executor_calls_def tool_result_block_def tool_result_text_def yield_def Let_def)
  next
    case False
    with a show ?thesis
      by (cases "execute_tool env (call_name t) a")
         (simp_all add: minimax_execute_one_tool_def parsed_arguments_def tool_events_def
          executor_calls_def tool_result_block_def tool_result_text_def minimax_tool_except_def
          yield_def Let_def)
  qed
qed

lemma minimax_tools_loop_run:
  assumes "arguments_are_json env tools" and "no_interrupt env (polls s) (length tools)"
  shows "\<exists>s'. minimax_tools_loop env tools l rs s = (Next, rs @ map (tool_result_block env) tools, s')
      \<and> out s' = out s @ concat (map (tool_events env) tools)
      \<and> calls s' = calls s @ concat (map (executor_calls env) tools)
      \<and> polls s' = polls s + length tools
      \<and> chats s' = chats s
      \<and> messages s' = messages s"
  using assms
proof (induction tools arbitrary: s l rs)
  case Nil
  then show ?case by simp
next
  case (Cons t tools)
  from Cons.prems(1) have ct: "\<not> isl (json_loads env (call_arguments t))"
    and rest: "arguments_are_json env tools"
    by (simp_all add: arguments_are_json_def)
  from Cons.prems(2) have ni: "\<not> interrupt_check env (polls s)"
    and nrest: "no_interrupt env (Suc (polls s)) (length tools)"
    by (simp_all add: no_interrupt_Suc)
  let ?u = "(poll s)\<lparr>out := out (poll s) @ tool_events env t,
                     calls := calls (poll s) @ executor_calls env t\<rparr>"
  from minimax_execute_one_tool_run [OF ct, of l rs "poll s"] obtain l' where
    step: "minimax_execute_one_tool env t l rs (poll s) = (Next, l', rs @ [tool_result_block env t], ?u)"
    by blast
  have p: "no_interrupt env (polls ?u) (length tools)" using nrest by simp
  from Cons.IH [OF rest p, of l' "rs @ [tool_result_block env t]"] obtain s' where
    run: "minimax_tools_loop env tools l' (rs @ [tool_result_block env t]) ?u
            = (Next, (rs @ [tool_result_block env t]) @ map (tool_result_block env) tools, s')"
    and o: "out s' = out ?u @ concat (map (tool_events env) tools)"
    and c: "calls s' = calls ?u @ concat (map (executor_calls env) tools)"
    and q: "polls s' = polls ?u + length tools"
    and ch: "chats s' = chats ?u"
    and m: "messages s' = messages ?u"
    by blast
  have "minimax_tools_loop env (t # tools) l rs s
          = (Next, rs @ map (tool_result_block env) (t # tools), s')"
    using ni step run by simp
  then show ?case
    using o c q ch m by simp
qed

text \<open>
  Claim C7, as amended.  In a round of the Minimax orchestrator whose items were all processed
  and gave one or more tool calls: when \<open>json.loads\<close> accepts the argument text of every call
  and the interrupt predicate is false at the poll before the tools and at the poll before
  each tool, the round ends normally and extends the history by exactly two messages, an
  assistant message whose content is the block array of the round (a thinking block when the
  reasoning text is not empty, a text block when the answer text is not empty, one
  \<open>tool_use\<close> block per call in order) and, after all calls, one user message whose content
  is the array of the \<open>tool_result\<close> blocks of the calls in order; when the predicate is
  true at the poll before the tools, the round appends nothing.
\<close>

theorem minimax_round_history:
  assumes "process_items env (round_items env s) empty_vars (s\<lparr>chats := Suc (chats s)\<rparr>)
             = (Next, v, s1)"
    and "tool_info v \<noteq> []"
    and "arguments_are_json env (tool_info v)"
  shows "(no_interrupt env (polls s1) (Suc (length (tool_info v))) \<longrightarrow>
            (\<exists>s'. minimax_round env s = (Next, v, s')
               \<and> messages s' = messages s
                    @ [assistant_blocks (round_blocks env v),
                       user_tool_results (map (tool_result_block env) (tool_info v))]
               \<and> out s' = out s1 @ SseToolCalls (tool_info v)
                              # concat (map (tool_events env) (tool_info v))))
       \<and> (interrupt_check env (polls s1) \<longrightarrow>
            (\<exists>s'. minimax_round env s = (Return, v, s')
               \<and> messages s' = messages s \<and> out s' = out s1 @ [SseInterrupted]))"
proof (intro conjI impI)
  from process_items_keeps [OF assms(1)] have m1: "messages s1 = messages s" by simp
  {
    assume n: "no_interrupt env (polls s1) (Suc (length (tool_info v)))"
    then have n0: "\<not> interrupt_check env (polls s1)"
      and n1: "no_interrupt env (Suc (polls s1)) (length (tool_info v))"
      by (simp_all add: no_interrupt_Suc)
    let ?u = "yield (SseToolCalls (tool_info v))
                (append_message (assistant_blocks (round_blocks env v)) (poll s1))"
    have p: "no_interrupt env (polls ?u) (length (tool_info v))" using n1 by simp
    from minimax_tools_loop_run [OF assms(3) p, of None "[]"] obtain s2 where
      run: "minimax_tools_loop env (tool_info v) None [] ?u
              = (Next, [] @ map (tool_result_block env) (tool_info v), s2)"
      and o: "out s2 = out ?u @ concat (map (tool_events env) (tool_info v))"
      and m: "messages s2 = messages ?u"
      by blast
    let ?r = "append_message (user_tool_results (map (tool_result_block env) (tool_info v))) s2"
    have "minimax_round env s = (Next, v, ?r)"
      using assms n0 run
      by (simp add: minimax_round_def round_items_def [symmetric] Let_def content_blocks_json
          execute_tools_minimax_style_def)
    then show "\<exists>s'. minimax_round env s = (Next, v, s')
               \<and> messages s' = messages s
                    @ [assistant_blocks (round_blocks env v),
                       user_tool_results (map (tool_result_block env) (tool_info v))]
               \<and> out s' = out s1 @ SseToolCalls (tool_info v)
                              # concat (map (tool_events env) (tool_info v))"
      using o m m1 by simp
  }
  {
    assume i: "interrupt_check env (polls s1)"
    have "minimax_round env s = (Return, v, yield SseInterrupted (poll s1))"
      using assms i
      by (simp add: minimax_round_def round_items_def [symmetric] Let_def content_blocks_json)
    then show "\<exists>s'. minimax_round env s = (Return, v, s')
               \<and> messages s' = messages s \<and> out s' = out s1 @ [SseInterrupted]"
      using m1 by simp
  }
qed

lemma strict_loads_examples:
  "strict_loads (call_arguments tc_add) = Inr (JObj [(''a'', JInt 1)])"
  "strict_loads (call_arguments tc_boom) = Inr (JObj [])"
  by code_simp+

lemma two_tools_facts:
  "round_items (example_env two_tools intr) (initial_state ms) = two_tools"
  "clean_items (example_env two_tools intr) two_tools"
  "decoded_tools (example_env two_tools intr) two_tools = [tc_add, tc_boom]"
  "items_text Think two_tools = ''hm''"
  "items_text Answer two_tools = ''I will add.''"
  "concat (map item_events two_tools) = [SseThinking ''hm'', SseAnswer ''I will add.'']"
  "length two_tools = 5"
  by (simp_all add: round_items_def initial_state_def clean_items_def decoded_tools_def
      items_text_def item_events_def two_tools_def msg_def example_decode_def)

text \<open>
  A round with reasoning text, answer text and two calls, one of which fails in the executor:
  run undisturbed, and interrupted at the poll before the tools.
\<close>

theorem minimax_round_history_witness:
  "(\<exists>v s'. minimax_round (example_env two_tools never) (initial_state [user_msg]) = (Next, v, s')
      \<and> messages s' =
          [user_msg,
           assistant_blocks
             [ThinkingBlock ''hm'', TextBlock ''I will add.'',
              ToolUseBlock ''call_1'' ''add'' (JObj [(''a'', JInt 1)]),
              ToolUseBlock ''call_3'' ''boom'' (JObj [])],
           user_tool_results
             [ToolResultBlock ''call_1'' ''3'',
              ToolResultBlock ''call_3'' (exec_error_prefix @ ''no such tool'')]])
 \<and> (\<exists>v s'. minimax_round (example_env two_tools (from_poll 5)) (initial_state [user_msg])
              = (Return, v, s')
      \<and> messages s' = [user_msg]
      \<and> out s' = [SseThinking ''hm'', SseAnswer ''I will add.'', SseInterrupted])"
proof -
  let ?S = "initial_state [user_msg]"
  let ?T = "?S\<lparr>chats := Suc (chats ?S)\<rparr>"
  let ?U = "?T\<lparr>polls := polls ?T + length two_tools,
                 out := out ?T @ concat (map item_events two_tools)\<rparr>"
  have run: "process_items (example_env two_tools intr) (round_items (example_env two_tools intr) ?S)
               empty_vars ?T
             = (Next,
                empty_vars\<lparr>reasoning := reasoning empty_vars @ items_text Think two_tools,
                  answer_content := answer_content empty_vars @ items_text Answer two_tools,
                  tool_info := tool_info empty_vars
                               @ decoded_tools (example_env two_tools intr) two_tools\<rparr>, ?U)"
    if "no_interrupt (example_env two_tools intr) (polls ?T) (length two_tools)" for intr
    using process_items_run [OF two_tools_facts(2) that, of empty_vars]
    by (simp add: two_tools_facts(1))
  let ?v = "\<lambda>intr. empty_vars\<lparr>reasoning := reasoning empty_vars @ items_text Think two_tools,
                  answer_content := answer_content empty_vars @ items_text Answer two_tools,
                  tool_info := tool_info empty_vars
                               @ decoded_tools (example_env two_tools intr) two_tools\<rparr>"
  have v: "reasoning (?v intr) = ''hm''" "answer_content (?v intr) = ''I will add.''"
    "tool_info (?v intr) = [tc_add, tc_boom]" for intr
    by (simp_all add: empty_vars_def two_tools_facts)
  have j: "arguments_are_json (example_env two_tools intr) (tool_info (?v intr))" for intr
    by (simp add: v arguments_are_json_def strict_loads_examples)
  have t: "tool_info (?v intr) \<noteq> []" for intr by (simp add: v)
  have n1: "no_interrupt (example_env two_tools never) (polls ?T) (length two_tools)"
    by (rule no_interrupt_never) simp
  have n2: "no_interrupt (example_env two_tools never) (polls ?U) (Suc (length (tool_info (?v never))))"
    by (rule no_interrupt_never) simp
  from minimax_round_history [OF run [OF n1] t j] n2 obtain s' where
    r: "minimax_round (example_env two_tools never) ?S = (Next, ?v never, s')"
    and m: "messages s' = messages ?S
              @ [assistant_blocks (round_blocks (example_env two_tools never) (?v never)),
                 user_tool_results (map (tool_result_block (example_env two_tools never))
                                        (tool_info (?v never)))]"
    by blast
  have m': "messages s' =
          [user_msg,
           assistant_blocks
             [ThinkingBlock ''hm'', TextBlock ''I will add.'',
              ToolUseBlock ''call_1'' ''add'' (JObj [(''a'', JInt 1)]),
              ToolUseBlock ''call_3'' ''boom'' (JObj [])],
           user_tool_results
             [ToolResultBlock ''call_1'' ''3'',
              ToolResultBlock ''call_3'' (exec_error_prefix @ ''no such tool'')]]"
    using m
    by (simp add: v round_blocks_def tool_use_block_def tool_result_block_def
        tool_result_text_def parsed_examples strict_loads_examples example_executor_def
        initial_state_def)
  have first: "\<exists>v s'. minimax_round (example_env two_tools never) ?S = (Next, v, s')
      \<and> messages s' =
          [user_msg,
           assistant_blocks
             [ThinkingBlock ''hm'', TextBlock ''I will add.'',
              ToolUseBlock ''call_1'' ''add'' (JObj [(''a'', JInt 1)]),
              ToolUseBlock ''call_3'' ''boom'' (JObj [])],
           user_tool_results
             [ToolResultBlock ''call_1'' ''3'',
              ToolResultBlock ''call_3'' (exec_error_prefix @ ''no such tool'')]]"
    using r m' by blast
  have n3: "no_interrupt (example_env two_tools (from_poll 5)) (polls ?T) (length two_tools)"
    by (simp add: no_interrupt_iff from_poll_def two_tools_facts(7) initial_state_def)
  have i: "interrupt_check (example_env two_tools (from_poll 5)) (polls ?U)"
    by (simp add: from_poll_def two_tools_facts(7) initial_state_def)
  from minimax_round_history [OF run [OF n3] t j] i obtain s'' where
    r2: "minimax_round (example_env two_tools (from_poll 5)) ?S = (Return, ?v (from_poll 5), s'')"
    and m2: "messages s'' = messages ?S" and o2: "out s'' = out ?U @ [SseInterrupted]"
    by blast
  have second: "\<exists>v s'. minimax_round (example_env two_tools (from_poll 5)) ?S = (Return, v, s')
      \<and> messages s' = [user_msg]
      \<and> out s' = [SseThinking ''hm'', SseAnswer ''I will add.'', SseInterrupted]"
    using r2 m2 o2 by (intro exI [of _ "?v (from_poll 5)"] exI [of _ s''])
      (simp add: initial_state_def two_tools_facts(6))
  from first second show ?thesis by blast
qed

text \<open>
  The claim as stated fails: a round with a tool call, interrupted at the poll before the
  tools, appends no assistant message and no user message.
\<close>

theorem minimax_interrupted_round_appends_nothing:
  "fst (minimax_round (example_env one_tool (from_poll 2)) (initial_state [user_msg])) = Return
 \<and> tool_info (fst (snd (minimax_round (example_env one_tool (from_poll 2))
                                       (initial_state [user_msg])))) = [tc_add]
 \<and> messages (snd (snd (minimax_round (example_env one_tool (from_poll 2))
                                      (initial_state [user_msg])))) = [user_msg]"
  by code_simp

text \<open>
  A call with the malformed arguments \<open>{bad\<close>: the unguarded \<open>json.loads\<close> that builds the
  \<open>tool_use\<close> block raises, the invocation ends with an \<open>error\<close> event and the history is
  unchanged, although \<open>_execute_tools_minimax_style\<close> has a branch for arguments that do not
  parse.
\<close>

lemma minimax_malformed_arguments_run:
  "map_option messages (minimax_chatToNextLoop 2 (example_env bad_tool never) [user_msg])
     = Some [user_msg]
 \<and> map_option out (minimax_chatToNextLoop 2 (example_env bad_tool never) [user_msg])
     = Some [SseError (response_error_prefix @ ''Expecting value'')]"
  by code_simp

section \<open>Properties of the OpenAI tool-call accumulator\<close>






















lemma process_chunks_items:
  "list_all (\<lambda>m. gorType m = Think \<or> gorType m = Answer) (fst (process_chunks cs d))"
proof (induction cs arbitrary: d)
  case Nil
  show ?case by simp
next
  case (Cons c cs)
  obtain items1 r1 where pc: "process_chunk c d = (items1, r1)"
    by (cases "process_chunk c d") auto
  then have i1: "list_all (\<lambda>m. gorType m = Think \<or> gorType m = Answer) items1"
    by (auto simp: process_chunk_def msg_def split: list.splits)
  show ?case
  proof (cases r1)
    case (Inl e)
    with pc i1 show ?thesis by simp
  next
    case (Inr d')
    obtain items2 r2 where p2: "process_chunks cs d' = (items2, r2)"
      by (cases "process_chunks cs d'") auto
    with Cons.IH [of d'] have "list_all (\<lambda>m. gorType m = Think \<or> gorType m = Answer) items2"
      by simp
    with Inr pc i1 p2 show ?thesis by simp
  qed
qed





section \<open>Properties of the provider adapters\<close>

lemma not_terminal_filter:
  "list_all (\<lambda>m. \<not> is_terminal m) pre \<Longrightarrow> filter is_terminal pre = []"
  by (induction pre) auto

lemma catch_all_raised:
  "list_all (\<lambda>m. \<not> is_terminal m) pre \<Longrightarrow> one_terminal_last (catch_all (pre, Some e))"
  by (simp add: catch_all_def one_terminal_last_def not_terminal_filter is_terminal_def msg_def)

lemma catch_all_ended:
  "list_all (\<lambda>m. \<not> is_terminal m) pre \<Longrightarrow>
   one_terminal_last (catch_all (pre @ [msg End []], None))"
  by (simp add: catch_all_def one_terminal_last_def not_terminal_filter is_terminal_def msg_def)

lemma think_answer_not_terminal:
  "list_all (\<lambda>m. gorType m = Think \<or> gorType m = Answer) items \<Longrightarrow>
   list_all (\<lambda>m. \<not> is_terminal m) items"
  by (induction items) (auto simp: is_terminal_def)

lemma tool_items_not_terminal: "list_all (\<lambda>m. \<not> is_terminal m) (tool_items dumps_tool tcs)"
  by (simp add: tool_items_def list_all_iff is_terminal_def msg_def)

lemma openai_stream_terminal:
  "one_terminal_last (catch_all (openai_handle_stream_response dumps_tool tr))"
proof (cases tr)
  case (CreateRaises e)
  then show ?thesis
    using catch_all_raised [of "[]" e] by (simp add: openai_handle_stream_response_def)
next
  case (Chunks cs stop)
  obtain pre r where p: "process_chunks cs [] = (pre, r)"
    by (cases "process_chunks cs []") auto
  from process_chunks_items [of cs "[]"] p
  have n: "list_all (\<lambda>m. \<not> is_terminal m) pre"
    by (simp add: think_answer_not_terminal)
  show ?thesis
  proof (cases r)
    case (Inl e)
    with Chunks p catch_all_raised [OF n, of e] show ?thesis
      by (simp add: openai_handle_stream_response_def)
  next
    case (Inr d)
    show ?thesis
    proof (cases stop)
      case (Some e)
      with Inr Chunks p catch_all_raised [OF n, of e] show ?thesis
        by (simp add: openai_handle_stream_response_def)
    next
      case None
      have "list_all (\<lambda>m. \<not> is_terminal m) (pre @ tool_items dumps_tool (finalize_tool_calls d))"
        using n tool_items_not_terminal by simp
      from catch_all_ended [OF this] None Inr Chunks p show ?thesis
        by (simp add: openai_handle_stream_response_def)
    qed
  qed
qed

lemma openai_normal_terminal:
  "one_terminal_last (catch_all (openai_handle_normal_response dumps_tool w))"
proof (cases w)
  case (Inl e)
  then show ?thesis
    using catch_all_raised [of "[]" e] by (simp add: openai_handle_normal_response_def)
next
  case (Inr choices)
  show ?thesis
  proof (cases choices)
    case Nil
    with Inr show ?thesis
      using catch_all_raised [of "[]"] by (simp add: openai_handle_normal_response_def)
  next
    case (Cons m others)
    let ?pre = "(if truthy (message_content m) then [msg Answer (or_empty (message_content m))] else [])
           @ (case message_tool_calls m of None \<Rightarrow> [] | Some tcs \<Rightarrow> tool_items dumps_tool tcs)"
    have "list_all (\<lambda>m. \<not> is_terminal m) ?pre"
      using tool_items_not_terminal
      by (auto simp: is_terminal_def msg_def split: option.splits)
    from catch_all_ended [OF this] Inr Cons show ?thesis
      by (simp add: openai_handle_normal_response_def)
  qed
qed

lemma anthropic_chunks_items:
  "list_all (\<lambda>m. gorType m = Think \<or> gorType m = Answer) (fst (anthropic_chunks cs v))"
proof (induction cs arbitrary: v)
  case Nil
  show ?case by simp
next
  case (Cons c cs)
  obtain items1 v1 where st: "anthropic_chunk_step c v = (items1, v1)"
    by (cases "anthropic_chunk_step c v") auto
  then have i1: "list_all (\<lambda>m. gorType m = Think \<or> gorType m = Answer) items1"
    by (auto simp: anthropic_chunk_step_def msg_def
        split: anthropic_chunk.splits block_start.splits block_delta.splits option.splits
          if_splits)
  obtain items2 v2 where p2: "anthropic_chunks cs v1 = (items2, v2)"
    by (cases "anthropic_chunks cs v1") auto
  with Cons.IH [of v1] have "list_all (\<lambda>m. gorType m = Think \<or> gorType m = Answer) items2"
    by simp
  with st i1 p2 show ?case by simp
qed

lemma anthropic_stream_terminal:
  "one_terminal_last (catch_all (anthropic_handle_stream_response dumps_tool tr))"
proof (cases tr)
  case (CreateRaises e)
  then show ?thesis
    using catch_all_raised [of "[]" e] by (simp add: anthropic_handle_stream_response_def)
next
  case (Chunks cs stop)
  let ?v0 = "\<lparr>finished_tool_calls = [], current_tool_call = None, current_content_type = None\<rparr>"
  obtain pre v where p: "anthropic_chunks cs ?v0 = (pre, v)"
    by (cases "anthropic_chunks cs ?v0") auto
  from anthropic_chunks_items [of cs ?v0] p
  have n: "list_all (\<lambda>m. \<not> is_terminal m) pre"
    by (simp add: think_answer_not_terminal)
  show ?thesis
  proof (cases stop)
    case (Some e)
    with Chunks p catch_all_raised [OF n, of e] show ?thesis
      by (simp add: anthropic_handle_stream_response_def)
  next
    case None
    have "list_all (\<lambda>m. \<not> is_terminal m) (pre @ tool_items dumps_tool (finished_tool_calls v))"
      using n tool_items_not_terminal by simp
    from catch_all_ended [OF this] None Chunks p show ?thesis
      by (simp add: anthropic_handle_stream_response_def)
  qed
qed

lemma anthropic_normal_terminal:
  "one_terminal_last (catch_all (anthropic_handle_normal_response dumps_tool dumps w))"
proof (cases w)
  case (Inl e)
  then show ?thesis
    using catch_all_raised [of "[]" e] by (simp add: anthropic_handle_normal_response_def)
next
  case (Inr bs)
  let ?pre = "(if response_thinking bs \<noteq> [] then [msg Think (response_thinking bs)] else [])
           @ (if response_text bs \<noteq> [] then [msg Answer (response_text bs)] else [])
           @ tool_items dumps_tool (response_tool_calls dumps bs)"
  have "list_all (\<lambda>m. \<not> is_terminal m) ?pre"
    using tool_items_not_terminal by (auto simp: is_terminal_def msg_def)
  from catch_all_ended [OF this] Inr show ?thesis
    by (simp add: anthropic_handle_normal_response_def)
qed

text \<open>
  Claim C1.  For both \<open>model_chat\<close> methods (the OpenAI one serves the routers
  \<open>openai-chat\<close> and \<open>deepseek-openai\<close>, the Anthropic one the routers \<open>anthropic\<close> and
  \<open>minimax-anthropic\<close>), streaming or not, and for every response of the provider, also one
  that raises when it is requested, in the middle of the stream or while a chunk is read: the
  items of one invocation contain exactly one item of type \<open>end\<close> or \<open>error\<close>, and it is the
  last item, so nothing follows an \<open>error\<close>.
\<close>

theorem model_chat_one_terminal:
  "one_terminal_last (openai_model_chat dumps_tool r)
 \<and> one_terminal_last (anthropic_model_chat dumps_tool dumps r')"
proof
  show "one_terminal_last (openai_model_chat dumps_tool r)"
    by (cases r) (simp_all add: openai_model_chat_def openai_stream_terminal openai_normal_terminal)
  show "one_terminal_last (anthropic_model_chat dumps_tool dumps r')"
    by (cases r')
       (simp_all add: anthropic_model_chat_def anthropic_stream_terminal anthropic_normal_terminal)
qed

text \<open>
  An OpenAI stream that raises after one content chunk ends with the \<open>error\<close> item; a whole
  Anthropic response ends with the \<open>end\<close> item.
\<close>

theorem model_chat_one_terminal_witness:
  "openai_model_chat (\<lambda>tc. call_id tc) (OpenaiStream broken_stream)
     = [msg Answer ''hi'', msg Error ''Error: connection lost'']
 \<and> one_terminal_last (openai_model_chat (\<lambda>tc. call_id tc) (OpenaiStream broken_stream))
 \<and> anthropic_model_chat (\<lambda>tc. call_id tc) (\<lambda>j. ''{}'') (AnthropicWhole whole_response)
     = [msg Think ''hm'', msg Answer ''3'', msg Tool ''t1'', msg End []]
 \<and> one_terminal_last
      (anthropic_model_chat (\<lambda>tc. call_id tc) (\<lambda>j. ''{}'') (AnthropicWhole whole_response))"
proof -
  have a: "openai_model_chat (\<lambda>tc. call_id tc) (OpenaiStream broken_stream)
     = [msg Answer ''hi'', msg Error ''Error: connection lost'']"
    by code_simp
  have b: "anthropic_model_chat (\<lambda>tc. call_id tc) (\<lambda>j. ''{}'') (AnthropicWhole whole_response)
     = [msg Think ''hm'', msg Answer ''3'', msg Tool ''t1'', msg End []]"
    by code_simp
  from model_chat_one_terminal [of "\<lambda>tc. call_id tc" "OpenaiStream broken_stream" "\<lambda>j. ''{}''"
      "AnthropicWhole whole_response"] a b
  show ?thesis by simp
qed

end
